theory Spec2Isabelle
  imports Complex_Main "HOL-Library.Multiset"
begin

section \<open>Domain model\<close>

text \<open>
  The source is \<^verbatim>\<open>heuristica.py\<close>: a genetic algorithm that assigns processes
  (\<^verbatim>\<open>Processo\<close>) to employees (\<^verbatim>\<open>Funcionario\<close>).  Python floats are read
  as real numbers; the built-in exceptions the code can raise are values of \<open>error\<close>.
  The field \<^verbatim>\<open>id\<close> of both classes is written \<open>proc_id\<close> and \<open>func_id\<close>.
\<close>

datatype error = StopIteration | IndexError | KeyError | ValueError

record processo =
  proc_id :: int
  categoria :: int
  peso :: real
  urgencia :: int
  tempo_estimado :: real

record funcionario =
  func_id :: int
  especialidades :: "int set"
  carga_horaria :: real
  senioridade :: int
  carga_atual :: real

text \<open>\<^verbatim>\<open>float('inf')\<close> is the one non-real float the tracker holds.\<close>

datatype real_inf = Finito real | Infinito

fun menor_que :: "real \<Rightarrow> real_inf \<Rightarrow> bool" where
  "menor_que x Infinito = True"
| "menor_que x (Finito y) = (x < y)"

fun menor_igual :: "real_inf \<Rightarrow> real_inf \<Rightarrow> bool" where
  "menor_igual a Infinito = True"
| "menor_igual Infinito (Finito y) = False"
| "menor_igual (Finito x) (Finito y) = (x \<le> y)"

text \<open>The fields of \<^verbatim>\<open>AlgoritmoGenetico\<close> that the optimizer reads or writes
  (the two metric fields only feed the console report).  A solution held by the object
  is a reference, see the object store below.\<close>

type_synonym endereco = nat

type_synonym solucao_ref = "(int \<times> endereco) list"

record algoritmo_genetico =
  num_geracoes :: int
  tamanho_populacao :: int
  taxa_mutacao :: real
  taxa_crossover :: real
  funcionarios :: "funcionario list"
  processos :: "processo list"
  melhor_solucao :: "solucao_ref option"
  melhor_fitness :: real_inf

definition init :: "int \<Rightarrow> int \<Rightarrow> real \<Rightarrow> real \<Rightarrow> algoritmo_genetico" where
  "init g p tm tc =
     \<lparr>num_geracoes = g, tamanho_populacao = p, taxa_mutacao = tm, taxa_crossover = tc,
      funcionarios = [], processos = [], melhor_solucao = None, melhor_fitness = Infinito\<rparr>"

definition adicionar_funcionario :: "funcionario \<Rightarrow> algoritmo_genetico \<Rightarrow> algoritmo_genetico" where
  "adicionar_funcionario f self = self\<lparr>funcionarios := funcionarios self @ [f]\<rparr>"

definition adicionar_processo :: "processo \<Rightarrow> algoritmo_genetico \<Rightarrow> algoritmo_genetico" where
  "adicionar_processo p self = self\<lparr>processos := processos self @ [p]\<rparr>"

section \<open>Solutions as values\<close>

text \<open>
  A solution is a Python dict from employee id to the list of process ids given to that
  employee.  Its content is an association list in insertion order (the order in which
  \<^verbatim>\<open>items()\<close> and \<^verbatim>\<open>values()\<close> iterate).
\<close>

type_synonym solucao = "(int \<times> int list) list"

text \<open>\<^verbatim>\<open>d[k].append(v)\<close> on a \<^verbatim>\<open>defaultdict(list)\<close>: a missing key is created
  at the end with an empty list first.\<close>

fun anexar :: "int \<Rightarrow> int \<Rightarrow> solucao \<Rightarrow> solucao" where
  "anexar k v [] = [(k, [v])]"
| "anexar k v ((k', vs) # resto) =
     (if k' = k then (k', vs @ [v]) # resto else (k', vs) # anexar k v resto)"

text \<open>Every process id a solution holds, in the order of \<^verbatim>\<open>values()\<close>.\<close>

definition ids_atribuidos :: "solucao \<Rightarrow> int list" where
  "ids_atribuidos sol = concat (map snd sol)"

text \<open>\<^verbatim>\<open>xs[i]\<close>: a negative index counts from the end, anything else out of range
  raises.\<close>

definition py_index :: "'a list \<Rightarrow> int \<Rightarrow> error + 'a" where
  "py_index xs i =
     (if 0 \<le> i \<and> i < int (length xs) then Inr (xs ! nat i)
      else if i < 0 \<and> - int (length xs) \<le> i then Inr (xs ! nat (int (length xs) + i))
      else Inl IndexError)"

section \<open>Fitness\<close>

text \<open>\<^verbatim>\<open>next(x for x in xs if P(x))\<close> raises \<^verbatim>\<open>StopIteration\<close> when nothing
  matches.  For an employee the model returns the position of the match, since the object
  found is then updated in place.\<close>

fun posicao_funcionario :: "funcionario list \<Rightarrow> int \<Rightarrow> error + nat" where
  "posicao_funcionario [] k = Inl StopIteration"
| "posicao_funcionario (f # fs) k =
     (if func_id f = k then Inr 0
      else (case posicao_funcionario fs k of Inl e \<Rightarrow> Inl e | Inr i \<Rightarrow> Inr (Suc i)))"

definition next_processo :: "processo list \<Rightarrow> int \<Rightarrow> error + processo" where
  "next_processo ps k =
     (case find (\<lambda>p. proc_id p = k) ps of None \<Rightarrow> Inl StopIteration | Some p \<Rightarrow> Inr p)"

text \<open>The inner loop: \<^verbatim>\<open>funcionario.carga_atual += processo.peso\<close> for each id.\<close>

fun somar_pesos :: "processo list \<Rightarrow> nat \<Rightarrow> int list \<Rightarrow> funcionario list \<Rightarrow> error + funcionario list" where
  "somar_pesos ps i [] fs = Inr fs"
| "somar_pesos ps i (k # ks) fs =
     (case next_processo ps k of
        Inl e \<Rightarrow> Inl e
      | Inr p \<Rightarrow> somar_pesos ps i ks (fs[i := (fs ! i)\<lparr>carga_atual := carga_atual (fs ! i) + peso p\<rparr>]))"

text \<open>The outer loop over \<^verbatim>\<open>solucao.items()\<close>; the employee is looked up before
  the first process of its list is.\<close>

fun calcular_cargas :: "processo list \<Rightarrow> solucao \<Rightarrow> funcionario list \<Rightarrow> error + funcionario list" where
  "calcular_cargas ps [] fs = Inr fs"
| "calcular_cargas ps ((k, ids) # resto) fs =
     (case posicao_funcionario fs k of
        Inl e \<Rightarrow> Inl e
      | Inr i \<Rightarrow>
          (case somar_pesos ps i ids fs of
             Inl e \<Rightarrow> Inl e
           | Inr fs' \<Rightarrow> calcular_cargas ps resto fs'))"

text \<open>\<^verbatim>\<open>max\<close> and \<^verbatim>\<open>min\<close> of a list raise \<^verbatim>\<open>ValueError\<close> on the empty list.\<close>

fun py_max :: "real list \<Rightarrow> error + real" where
  "py_max [] = Inl ValueError"
| "py_max (x # xs) = Inr (fold max xs x)"

fun py_min :: "real list \<Rightarrow> error + real" where
  "py_min [] = Inl ValueError"
| "py_min (x # xs) = Inr (fold min xs x)"

fun penalizar :: "funcionario list \<Rightarrow> real \<Rightarrow> real" where
  "penalizar [] penalidade = penalidade"
| "penalizar (f # fs) penalidade =
     penalizar fs
       (if carga_atual f > carga_horaria f
        then penalidade + (carga_atual f - carga_horaria f) * 1000
        else penalidade)"

text \<open>\<^verbatim>\<open>calcular_fitness\<close> returns the fitness and leaves the loads it computed in
  the employees' \<^verbatim>\<open>carga_atual\<close>; both are returned.\<close>

definition calcular_fitness :: "algoritmo_genetico \<Rightarrow> solucao \<Rightarrow> error + (real \<times> algoritmo_genetico)" where
  "calcular_fitness self sol =
     (case calcular_cargas (processos self) sol
             (map (\<lambda>f. f\<lparr>carga_atual := 0\<rparr>) (funcionarios self)) of
        Inl e \<Rightarrow> Inl e
      | Inr fs \<Rightarrow>
          (case py_max (map carga_atual fs) of
             Inl e \<Rightarrow> Inl e
           | Inr maior \<Rightarrow>
               (case py_min (map carga_atual fs) of
                  Inl e \<Rightarrow> Inl e
                | Inr menor \<Rightarrow>
                    Inr (maior - menor + penalizar fs 0, self\<lparr>funcionarios := fs\<rparr>))))"

section \<open>Random outcomes\<close>

text \<open>
  The code draws from Python's \<^verbatim>\<open>random\<close> module and iterates over a \<^verbatim>\<open>set\<close>.
  Every outcome is an input of the model: \<open>reais\<close> holds the results of successive
  \<^verbatim>\<open>random.random()\<close> calls, \<open>inteiros\<close> the integers behind successive
  \<^verbatim>\<open>random.choice\<close> calls (the element picked from \<open>xs\<close> is the one at position
  \<open>n mod length xs\<close>), and \<open>ordem\<close> ranks the ids: a set iterates over its elements,
  each once, by increasing rank.  The two counters say how many outcomes were consumed.
\<close>

record acaso =
  reais :: "nat \<Rightarrow> real"
  inteiros :: "nat \<Rightarrow> nat"
  ordem :: "int \<Rightarrow> int"
  lidos_reais :: nat
  lidos_inteiros :: nat

definition random_random :: "acaso \<Rightarrow> real \<times> acaso" where
  "random_random g = (reais g (lidos_reais g), g\<lparr>lidos_reais := Suc (lidos_reais g)\<rparr>)"

text \<open>The choice from a list already known to be non-empty.\<close>

definition escolher :: "'a list \<Rightarrow> acaso \<Rightarrow> 'a \<times> acaso" where
  "escolher xs g =
     (xs ! (inteiros g (lidos_inteiros g) mod length xs),
      g\<lparr>lidos_inteiros := Suc (lidos_inteiros g)\<rparr>)"

definition random_choice :: "'a list \<Rightarrow> acaso \<Rightarrow> error + ('a \<times> acaso)" where
  "random_choice xs g = (if xs = [] then Inl IndexError else Inr (escolher xs g))"

section \<open>Random construction\<close>

definition compativeis :: "funcionario list \<Rightarrow> int \<Rightarrow> funcionario list" where
  "compativeis fs c = filter (\<lambda>f. c \<in> especialidades f) fs"

fun distribuir :: "funcionario list \<Rightarrow> processo list \<Rightarrow> solucao \<Rightarrow> acaso \<Rightarrow> solucao \<times> acaso" where
  "distribuir fs [] sol g = (sol, g)"
| "distribuir fs (p # ps) sol g =
     (if compativeis fs (categoria p) = [] then distribuir fs ps sol g
      else (case escolher (compativeis fs (categoria p)) g of
              (f, g') \<Rightarrow> distribuir fs ps (anexar (func_id f) (proc_id p) sol) g'))"

text \<open>\<^verbatim>\<open>sorted\<close> is stable, as \<open>sort_key\<close> is.\<close>

definition gerar_solucao_aleatoria :: "algoritmo_genetico \<Rightarrow> acaso \<Rightarrow> solucao \<times> acaso" where
  "gerar_solucao_aleatoria self g =
     distribuir (funcionarios self) (sort_key (\<lambda>p. - urgencia p) (processos self)) [] g"

section \<open>The object store\<close>

text \<open>
  The lists inside a solution are mutable objects, and \<^verbatim>\<open>dict.copy()\<close> is shallow:
  two dicts can hold the same list.  A store maps addresses to list contents; a solution
  in the store (\<open>solucao_ref\<close>) maps each employee id to the address of its list.  No
  dict of the program gains or loses a key after it is built, so the dicts themselves
  are values.
\<close>

record armazem =
  listas :: "endereco \<Rightarrow> int list"
  proximo :: endereco

definition conteudo :: "armazem \<Rightarrow> solucao_ref \<Rightarrow> solucao" where
  "conteudo m s = map (\<lambda>(k, a). (k, listas m a)) s"

text \<open>A freshly built solution: each of its lists is a new object.\<close>

fun alocar :: "solucao \<Rightarrow> armazem \<Rightarrow> solucao_ref \<times> armazem" where
  "alocar [] m = ([], m)"
| "alocar ((k, xs) # resto) m =
     (case alocar resto (m\<lparr>listas := (listas m)(proximo m := xs), proximo := Suc (proximo m)\<rparr>) of
        (s, m') \<Rightarrow> ((k, proximo m) # s, m'))"

section \<open>Crossover\<close>

text \<open>The list comprehension indexes \<^verbatim>\<open>self.processos\<close> by the process id once per
  employee, so with no employee at all the index is never evaluated.\<close>

definition compativeis_por_posicao :: "algoritmo_genetico \<Rightarrow> int \<Rightarrow> error + funcionario list" where
  "compativeis_por_posicao self processo_id =
     (if funcionarios self = [] then Inr []
      else (case py_index (processos self) processo_id of
              Inl e \<Rightarrow> Inl e
            | Inr p \<Rightarrow> Inr (compativeis (funcionarios self) (categoria p))))"

fun redistribuir :: "algoritmo_genetico \<Rightarrow> int list \<Rightarrow> solucao \<Rightarrow> acaso \<Rightarrow> error + (solucao \<times> acaso)" where
  "redistribuir self [] filho g = Inr (filho, g)"
| "redistribuir self (processo_id # resto) filho g =
     (case compativeis_por_posicao self processo_id of
        Inl e \<Rightarrow> Inl e
      | Inr cs \<Rightarrow>
          (if cs = [] then redistribuir self resto filho g
           else (case escolher cs g of
                   (f, g') \<Rightarrow> redistribuir self resto (anexar (func_id f) processo_id filho) g')))"

text \<open>\<^verbatim>\<open>pai1.copy()\<close> is a new dict with the lists of \<open>pai1\<close>; the recombined child
  has lists of its own.  \<open>todos_processos\<close> is the set of the ids of both parents.\<close>

definition crossover ::
  "algoritmo_genetico \<Rightarrow> armazem \<Rightarrow> solucao_ref \<Rightarrow> solucao_ref \<Rightarrow> acaso
     \<Rightarrow> error + (solucao_ref \<times> armazem \<times> acaso)" where
  "crossover self m pai1 pai2 g =
     (case random_random g of
        (u, g1) \<Rightarrow>
          if u > taxa_crossover self then Inr (pai1, m, g1)
          else (case redistribuir self
                       (sort_key (ordem g1)
                          (remdups (ids_atribuidos (conteudo m pai1) @ ids_atribuidos (conteudo m pai2))))
                       [] g1 of
                  Inl e \<Rightarrow> Inl e
                | Inr (v, g2) \<Rightarrow> (case alocar v m of (filho, m') \<Rightarrow> Inr (filho, m', g2))))"

section \<open>Mutation\<close>

text \<open>The loop that removes the chosen id from the first list holding it.\<close>

fun remover_primeiro :: "int \<Rightarrow> solucao_ref \<Rightarrow> armazem \<Rightarrow> armazem" where
  "remover_primeiro processo_id [] m = m"
| "remover_primeiro processo_id ((k, a) # resto) m =
     (if processo_id \<in> set (listas m a)
      then m\<lparr>listas := (listas m)(a := remove1 processo_id (listas m a))\<rparr>
      else remover_primeiro processo_id resto m)"

text \<open>\<^verbatim>\<open>mutacao\<close> works in place and returns nothing: the result is the exception
  raised, if any, with the store as the call leaves it.  The solution is a plain dict,
  so \<^verbatim>\<open>solucao[funcionario.id]\<close> raises \<^verbatim>\<open>KeyError\<close> for a missing key.\<close>

definition mutacao ::
  "algoritmo_genetico \<Rightarrow> armazem \<Rightarrow> solucao_ref \<Rightarrow> acaso \<Rightarrow> error option \<times> armazem \<times> acaso" where
  "mutacao self m sol g =
     (case random_random g of
        (u, g1) \<Rightarrow>
          if u > taxa_mutacao self then (None, m, g1)
          else if ids_atribuidos (conteudo m sol) = [] then (None, m, g1)
          else (case escolher (ids_atribuidos (conteudo m sol)) g1 of
                  (processo_id, g2) \<Rightarrow>
                    (case py_index (processos self) processo_id of
                       Inl e \<Rightarrow> (Some e, m, g2)
                     | Inr p \<Rightarrow>
                         if compativeis (funcionarios self) (categoria p) = []
                         then (None, remover_primeiro processo_id sol m, g2)
                         else (case escolher (compativeis (funcionarios self) (categoria p)) g2 of
                                 (f, g3) \<Rightarrow>
                                   (case map_of sol (func_id f) of
                                      None \<Rightarrow> (Some KeyError, remover_primeiro processo_id sol m, g3)
                                    | Some a \<Rightarrow>
                                        (None,
                                         (remover_primeiro processo_id sol m)
                                           \<lparr>listas := (listas (remover_primeiro processo_id sol m))
                                              (a := listas (remover_primeiro processo_id sol m) a @ [processo_id])\<rparr>,
                                         g3))))))"

section \<open>The generational loop\<close>

fun gerar_populacao ::
  "algoritmo_genetico \<Rightarrow> nat \<Rightarrow> armazem \<Rightarrow> acaso \<Rightarrow> solucao_ref list \<times> armazem \<times> acaso" where
  "gerar_populacao self 0 m g = ([], m, g)"
| "gerar_populacao self (Suc n) m g =
     (case gerar_solucao_aleatoria self g of
        (v, g1) \<Rightarrow>
          (case alocar v m of
             (s, m1) \<Rightarrow>
               (case gerar_populacao self n m1 g1 of
                  (pop, m2, g2) \<Rightarrow> (s # pop, m2, g2))))"

text \<open>The list comprehension \<^verbatim>\<open>[(sol, self.calcular_fitness(sol)) for sol in populacao]\<close>.\<close>

fun avaliar ::
  "algoritmo_genetico \<Rightarrow> armazem \<Rightarrow> solucao_ref list
     \<Rightarrow> error + ((solucao_ref \<times> real) list \<times> algoritmo_genetico)" where
  "avaliar self m [] = Inr ([], self)"
| "avaliar self m (s # pop) =
     (case calcular_fitness self (conteudo m s) of
        Inl e \<Rightarrow> Inl e
      | Inr (fit, self1) \<Rightarrow>
          (case avaliar self1 m pop of
             Inl e \<Rightarrow> Inl e
           | Inr (fits, self2) \<Rightarrow> Inr ((s, fit) # fits, self2)))"

text \<open>\<^verbatim>\<open>xs[:n]\<close>.\<close>

definition py_prefixo :: "'a list \<Rightarrow> int \<Rightarrow> 'a list" where
  "py_prefixo xs n = (if 0 \<le> n then take (nat n) xs else take (nat (int (length xs) + n)) xs)"

text \<open>One turn of the \<^verbatim>\<open>while\<close> loop: two parents, crossover, mutation.\<close>

definition gerar_filho ::
  "algoritmo_genetico \<Rightarrow> solucao_ref list \<Rightarrow> armazem \<Rightarrow> acaso
     \<Rightarrow> error + (solucao_ref \<times> armazem \<times> acaso)" where
  "gerar_filho self melhores_solucoes m g =
     (case random_choice melhores_solucoes g of
        Inl e \<Rightarrow> Inl e
      | Inr (pai1, g1) \<Rightarrow>
          (case random_choice melhores_solucoes g1 of
             Inl e \<Rightarrow> Inl e
           | Inr (pai2, g2) \<Rightarrow>
               (case crossover self m pai1 pai2 g2 of
                  Inl e \<Rightarrow> Inl e
                | Inr (filho, m1, g3) \<Rightarrow>
                    (case mutacao self m1 filho g3 of
                       (Some e, m2, g4) \<Rightarrow> Inl e
                     | (None, m2, g4) \<Rightarrow> Inr (filho, m2, g4)))))"

function encher ::
  "algoritmo_genetico \<Rightarrow> solucao_ref list \<Rightarrow> solucao_ref list \<Rightarrow> armazem \<Rightarrow> acaso
     \<Rightarrow> error + (solucao_ref list \<times> armazem \<times> acaso)" where
  "encher self melhores_solucoes nova_populacao m g =
     (if int (length nova_populacao) < tamanho_populacao self
      then (case gerar_filho self melhores_solucoes m g of
              Inl e \<Rightarrow> Inl e
            | Inr (filho, m', g') \<Rightarrow>
                encher self melhores_solucoes (nova_populacao @ [filho]) m' g')
      else Inr (nova_populacao, m, g))"
  by pat_completeness auto
termination
  by (relation "measure (\<lambda>(self, melhores_solucoes, nova_populacao, m, g).
                   nat (tamanho_populacao self) - length nova_populacao)") auto

declare encher.simps [simp del]

text \<open>The body of the \<^verbatim>\<open>for\<close> loop.  The console report is left out.\<close>

definition geracao ::
  "algoritmo_genetico \<Rightarrow> solucao_ref list \<Rightarrow> armazem \<Rightarrow> acaso
     \<Rightarrow> error + (algoritmo_genetico \<times> solucao_ref list \<times> armazem \<times> acaso)" where
  "geracao self populacao m g =
     (case avaliar self m populacao of
        Inl e \<Rightarrow> Inl e
      | Inr (fitness_populacao, self1) \<Rightarrow>
          (case sort_key snd fitness_populacao of
             [] \<Rightarrow> Inl IndexError
           | (s0, f0) # _ \<Rightarrow>
               (case encher
                       (if menor_que f0 (melhor_fitness self1)
                        then self1\<lparr>melhor_solucao := Some s0, melhor_fitness := Finito f0\<rparr>
                        else self1)
                       (map fst (py_prefixo (sort_key snd fitness_populacao) (tamanho_populacao self1 div 2)))
                       (map fst (py_prefixo (sort_key snd fitness_populacao) (tamanho_populacao self1 div 2)))
                       m g of
                  Inl e \<Rightarrow> Inl e
                | Inr (nova_populacao, m', g') \<Rightarrow>
                    Inr (if menor_que f0 (melhor_fitness self1)
                         then self1\<lparr>melhor_solucao := Some s0, melhor_fitness := Finito f0\<rparr>
                         else self1,
                         nova_populacao, m', g'))))"

fun laco ::
  "nat \<Rightarrow> algoritmo_genetico \<Rightarrow> solucao_ref list \<Rightarrow> armazem \<Rightarrow> acaso
     \<Rightarrow> error + (algoritmo_genetico \<times> solucao_ref list \<times> armazem \<times> acaso)" where
  "laco 0 self populacao m g = Inr (self, populacao, m, g)"
| "laco (Suc n) self populacao m g =
     (case geracao self populacao m g of
        Inl e \<Rightarrow> Inl e
      | Inr (self', populacao', m', g') \<Rightarrow> laco n self' populacao' m' g')"

text \<open>\<^verbatim>\<open>executar\<close> returns \<^verbatim>\<open>self.melhor_solucao\<close>; the object, the store and the
  remaining outcomes are returned with it.\<close>

definition executar ::
  "algoritmo_genetico \<Rightarrow> armazem \<Rightarrow> acaso
     \<Rightarrow> error + (solucao_ref option \<times> algoritmo_genetico \<times> armazem \<times> acaso)" where
  "executar self m g =
     (case gerar_populacao self (nat (tamanho_populacao self)) m g of
        (populacao, m1, g1) \<Rightarrow>
          (case laco (nat (num_geracoes self)) self populacao m1 g1 of
             Inl e \<Rightarrow> Inl e
           | Inr (self', populacao', m', g') \<Rightarrow> Inr (melhor_solucao self', self', m', g')))"

section \<open>The fitness formula of the specification\<close>

text \<open>
  The specification gives the fitness as a formula over per-employee loads.  The load of
  the employee at position \<open>i\<close> is the total weight of the pairs of the solution whose
  key names that employee, an id naming the first employee that carries it; the weight
  of a process id is that of the first process carrying it.
\<close>

definition peso_de :: "processo list \<Rightarrow> int \<Rightarrow> real" where
  "peso_de ps k = (case find (\<lambda>p. proc_id p = k) ps of None \<Rightarrow> 0 | Some p \<Rightarrow> peso p)"

definition nomeia :: "funcionario list \<Rightarrow> int \<Rightarrow> nat \<Rightarrow> bool" where
  "nomeia fs k i = (i < length fs \<and> func_id (fs ! i) = k \<and> k \<notin> func_id ` set (take i fs))"

definition carga_spec :: "algoritmo_genetico \<Rightarrow> solucao \<Rightarrow> nat \<Rightarrow> real" where
  "carga_spec self sol i =
     (\<Sum>(k, ids) \<leftarrow> sol. if nomeia (funcionarios self) k i
                          then (\<Sum>p \<leftarrow> ids. peso_de (processos self) p) else 0)"

definition excesso :: "algoritmo_genetico \<Rightarrow> solucao \<Rightarrow> nat \<Rightarrow> real" where
  "excesso self sol i =
     (if carga_spec self sol i > carga_horaria (funcionarios self ! i)
      then (carga_spec self sol i - carga_horaria (funcionarios self ! i)) * 1000 else 0)"

definition fitness_spec :: "algoritmo_genetico \<Rightarrow> solucao \<Rightarrow> real" where
  "fitness_spec self sol =
     Max (carga_spec self sol ` {..<length (funcionarios self)})
       - Min (carga_spec self sol ` {..<length (funcionarios self)})
       + (\<Sum>i \<leftarrow> [0..<length (funcionarios self)]. excesso self sol i)"

text \<open>The employees as an evaluation leaves them, each with its load.\<close>

definition com_cargas :: "algoritmo_genetico \<Rightarrow> solucao \<Rightarrow> funcionario list" where
  "com_cargas self sol =
     map (\<lambda>i. (funcionarios self ! i)\<lparr>carga_atual := carga_spec self sol i\<rparr>)
       [0..<length (funcionarios self)]"

definition creditar :: "nat \<Rightarrow> real \<Rightarrow> funcionario list \<Rightarrow> funcionario list" where
  "creditar i x fs = fs[i := (fs ! i)\<lparr>carga_atual := carga_atual (fs ! i) + x\<rparr>]"

text \<open>The best-solution tracker of the optimizer.\<close>

definition rastreador :: "algoritmo_genetico \<Rightarrow> solucao_ref option \<times> real_inf" where
  "rastreador self = (melhor_solucao self, melhor_fitness self)"

text \<open>A solution that names only employees and processes of the domain data.\<close>

definition no_dominio :: "algoritmo_genetico \<Rightarrow> solucao \<Rightarrow> bool" where
  "no_dominio self sol =
     (\<forall>(k, ids) \<in> set sol.
        k \<in> func_id ` set (funcionarios self) \<and> set ids \<subseteq> proc_id ` set (processos self))"

section \<open>The operators in the words of the specification\<close>

text \<open>Removing the first occurrence of a process id from the first sequence that holds
  it, and appending a process id to the sequence of an employee the solution already has.\<close>

fun retirar :: "int \<Rightarrow> solucao \<Rightarrow> solucao" where
  "retirar p [] = []"
| "retirar p ((k, xs) # resto) =
     (if p \<in> set xs then (k, remove1 p xs) # resto else (k, xs) # retirar p resto)"

fun acrescentar :: "int \<Rightarrow> int \<Rightarrow> solucao \<Rightarrow> solucao" where
  "acrescentar k p [] = []"
| "acrescentar k p ((k', xs) # resto) =
     (if k' = k then (k', xs @ [p]) # resto else (k', xs) # acrescentar k p resto)"

text \<open>The process that carries an id, the employees compatible with it (those whose
  specialties contain its category, in the order of the list of employees), and a solution
  that gives every process id only to the id of an employee whose specialties contain the
  category of that process.\<close>

definition item_com_id :: "algoritmo_genetico \<Rightarrow> int \<Rightarrow> processo option" where
  "item_com_id self p = find (\<lambda>q. proc_id q = p) (processos self)"

definition compativeis_spec :: "algoritmo_genetico \<Rightarrow> int \<Rightarrow> funcionario list" where
  "compativeis_spec self p =
     (case item_com_id self p of
        None \<Rightarrow> []
      | Some q \<Rightarrow> filter (\<lambda>f. categoria q \<in> especialidades f) (funcionarios self))"

definition bem_atribuida :: "algoritmo_genetico \<Rightarrow> solucao \<Rightarrow> bool" where
  "bem_atribuida self sol =
     (\<forall>(k, ps) \<in> set sol. \<forall>p \<in> set ps.
        \<exists>q f. item_com_id self p = Some q \<and> f \<in> set (funcionarios self)
              \<and> func_id f = k \<and> categoria q \<in> especialidades f)"

text \<open>The process id carried by a process is its position in the list of processes.\<close>

definition posicao_e_id :: "algoritmo_genetico \<Rightarrow> int \<Rightarrow> bool" where
  "posicao_e_id self p =
     (0 \<le> p \<and> p < int (length (processos self))
      \<and> find (\<lambda>q. proc_id q = p) (processos self) = Some (processos self ! nat p))"

text \<open>The randomized construction seeded by a list of process ids.  One position is
  drawn per id in the list of its compatible employees: \<open>posicoes\<close> are the positions
  that the integer outcomes give, \<open>construir\<close> gives each id to the employee at its
  position.  \<open>resultados\<close> lists every way to draw one position per id: these are the
  outcomes of one \<^verbatim>\<open>random.choice\<close> per id, which picks each position of its list
  with the same chance, so they are equally likely.\<close>

fun posicoes :: "algoritmo_genetico \<Rightarrow> (nat \<Rightarrow> nat) \<Rightarrow> nat \<Rightarrow> int list \<Rightarrow> nat list" where
  "posicoes self ns i [] = []"
| "posicoes self ns i (p # ps) =
     (ns i mod length (compativeis_spec self p)) # posicoes self ns (Suc i) ps"

definition posicoes_sorteadas :: "algoritmo_genetico \<Rightarrow> acaso \<Rightarrow> int list \<Rightarrow> nat list" where
  "posicoes_sorteadas self g ids = posicoes self (inteiros g) (lidos_inteiros g) ids"

fun construir :: "algoritmo_genetico \<Rightarrow> nat list \<Rightarrow> int list \<Rightarrow> solucao \<Rightarrow> solucao" where
  "construir self (k # ks) (p # ps) v =
     construir self ks ps (anexar (func_id (compativeis_spec self p ! k)) p v)"
| "construir self ks ps v = v"

definition resultados :: "algoritmo_genetico \<Rightarrow> int list \<Rightarrow> nat list list" where
  "resultados self ids = product_lists (map (\<lambda>p. [0..<length (compativeis_spec self p)]) ids)"

text \<open>The ids of both parents, each once, in the order the set iterates.\<close>

definition todos_processos :: "armazem \<Rightarrow> solucao_ref \<Rightarrow> solucao_ref \<Rightarrow> acaso \<Rightarrow> int list" where
  "todos_processos m pai1 pai2 g =
     sort_key (ordem g)
       (remdups (ids_atribuidos (conteudo m pai1) @ ids_atribuidos (conteudo m pai2)))"

text \<open>What a mutation draws: whether it fires (the rate draw does not exceed the rate and
  something is assigned), the process it picks, the employees compatible with that
  process and the one picked among them; and the content of the solution afterwards.\<close>

definition mutacao_dispara :: "algoritmo_genetico \<Rightarrow> armazem \<Rightarrow> solucao_ref \<Rightarrow> acaso \<Rightarrow> bool" where
  "mutacao_dispara self m sol g =
     (reais g (lidos_reais g) \<le> taxa_mutacao self \<and> ids_atribuidos (conteudo m sol) \<noteq> [])"

definition item_sorteado :: "armazem \<Rightarrow> solucao_ref \<Rightarrow> acaso \<Rightarrow> int" where
  "item_sorteado m sol g =
     ids_atribuidos (conteudo m sol)
       ! (inteiros g (lidos_inteiros g) mod length (ids_atribuidos (conteudo m sol)))"



definition apos_mutacao :: "algoritmo_genetico \<Rightarrow> armazem \<Rightarrow> solucao_ref \<Rightarrow> acaso \<Rightarrow> solucao" where
  "apos_mutacao self m sol g = conteudo (fst (snd (mutacao self m sol g))) sol"

section \<open>Example data\<close>

text \<open>One employee of capacity 5 and one process of weight 8, as in the specification's
  scenario.\<close>

definition cenario_um :: algoritmo_genetico where
  "cenario_um =
     adicionar_processo \<lparr>proc_id = 0, categoria = 1, peso = 8, urgencia = 3, tempo_estimado = 2\<rparr>
       (adicionar_funcionario
          \<lparr>func_id = 1, especialidades = {1}, carga_horaria = 5, senioridade = 3, carga_atual = 0\<rparr>
          (init 100 50 (1 / 10) (8 / 10)))"

text \<open>Two employees that can both take either of two processes of weight 5; a store
  holding the solutions \<open>{1: [0], 2: [1]}\<close> and \<open>{1: [0, 1]}\<close>; and two fixed
  sequences of random outcomes.\<close>

definition dois_funcionarios :: algoritmo_genetico where
  "dois_funcionarios =
     adicionar_processo \<lparr>proc_id = 1, categoria = 1, peso = 5, urgencia = 3, tempo_estimado = 2\<rparr>
       (adicionar_processo \<lparr>proc_id = 0, categoria = 1, peso = 5, urgencia = 3, tempo_estimado = 2\<rparr>
          (adicionar_funcionario
             \<lparr>func_id = 2, especialidades = {1}, carga_horaria = 10, senioridade = 3, carga_atual = 0\<rparr>
             (adicionar_funcionario
                \<lparr>func_id = 1, especialidades = {1}, carga_horaria = 10, senioridade = 3, carga_atual = 0\<rparr>
                (init 1 2 (1 / 10) (8 / 10)))))"

definition armazem_vazio :: armazem where
  "armazem_vazio = \<lparr>listas = (\<lambda>a. []), proximo = 0\<rparr>"

definition armazem_ab :: armazem where
  "armazem_ab = \<lparr>listas = (\<lambda>a. if a = 0 then [0] else if a = 1 then [1] else if a = 2 then [0, 1] else []),
                  proximo = 3\<rparr>"

definition sol_a :: solucao_ref where "sol_a = [(1, 0), (2, 1)]"

definition sol_b :: solucao_ref where "sol_b = [(1, 2)]"

definition acaso_troca :: acaso where
  "acaso_troca =
     \<lparr>reais = (\<lambda>n. if n = 0 then 9 / 10 else 1 / 20),
      inteiros = (\<lambda>n. if n = 1 \<or> n = 7 then 1 else 0),
      ordem = (\<lambda>x. x),
      lidos_reais = 0, lidos_inteiros = 0\<rparr>"

definition acaso_zero :: acaso where
  "acaso_zero =
     \<lparr>reais = (\<lambda>n. 0), inteiros = (\<lambda>n. if n = 1 then 1 else 0),
      ordem = (\<lambda>x. x), lidos_reais = 0, lidos_inteiros = 0\<rparr>"


definition ids_repetidos :: algoritmo_genetico where
  "ids_repetidos =
     dois_funcionarios
       \<lparr>processos :=
          [\<lparr>proc_id = 0, categoria = 1, peso = 5, urgencia = 3, tempo_estimado = 2\<rparr>,
           \<lparr>proc_id = 0, categoria = 1, peso = 5, urgencia = 3, tempo_estimado = 2\<rparr>]\<rparr>"

text \<open>Random outcomes whose first rate draw is 0.05.\<close>

definition acaso_recombina :: acaso where
  "acaso_recombina = acaso_troca\<lparr>lidos_reais := 1\<rparr>"

section \<open>Fitness: the code computes the formula\<close>

lemma nomeia_Cons:
  "nomeia (f # fs) k i \<longleftrightarrow>
     (if func_id f = k then i = 0 else (\<exists>j. i = Suc j \<and> nomeia fs k j))"
  by (cases i) (auto simp: nomeia_def)

lemma posicao_nomeia: "posicao_funcionario fs k = Inr i \<longleftrightarrow> nomeia fs k i"
proof (induction fs arbitrary: i)
  case Nil
  then show ?case by (simp add: nomeia_def)
next
  case (Cons f fs)
  show ?case
  proof (cases "posicao_funcionario fs k")
    case (Inl e)
    then have "\<And>j. \<not> nomeia fs k j" using Cons.IH by simp
    then show ?thesis using Inl by (auto simp: nomeia_Cons)
  next
    case (Inr j)
    then have "\<And>j'. nomeia fs k j' \<longleftrightarrow> j' = j"
      unfolding Cons.IH [symmetric] by auto
    then show ?thesis using Inr by (auto simp: nomeia_Cons)
  qed
qed

lemma posicao_found:
  "k \<in> func_id ` set fs \<Longrightarrow> \<exists>i. posicao_funcionario fs k = Inr i \<and> i < length fs"
  by (induction fs) (auto split: sum.splits)

lemma posicao_ids:
  "map func_id fs = map func_id fs' \<Longrightarrow> posicao_funcionario fs k = posicao_funcionario fs' k"
proof (induction fs arbitrary: fs')
  case Nil
  then show ?case by simp
next
  case (Cons f fs)
  then obtain g gs where "fs' = g # gs" by (cases fs') auto
  with Cons show ?case by (auto split: sum.splits)
qed

lemma creditar_creditar: "i < length fs \<Longrightarrow> creditar i y (creditar i x fs) = creditar i (x + y) fs"
  by (simp add: creditar_def add.assoc)

lemma creditar_zero: "i < length fs \<Longrightarrow> creditar i 0 fs = fs"
  by (simp add: creditar_def)

lemma next_processo_found:
  "k \<in> proc_id ` set ps \<Longrightarrow> \<exists>p. next_processo ps k = Inr p \<and> peso p = peso_de ps k"
  by (auto simp: next_processo_def peso_de_def find_None_iff split: option.splits)

lemma somar_pesos_closed:
  "set ks \<subseteq> proc_id ` set ps \<Longrightarrow> i < length fs \<Longrightarrow>
   somar_pesos ps i ks fs = Inr (creditar i (\<Sum>p \<leftarrow> ks. peso_de ps p) fs)"
proof (induction ks arbitrary: fs)
  case Nil
  then show ?case by (simp add: creditar_zero)
next
  case (Cons k ks)
  from Cons.prems obtain p where p: "next_processo ps k = Inr p" "peso p = peso_de ps k"
    using next_processo_found by force
  have "somar_pesos ps i (k # ks) fs = somar_pesos ps i ks (creditar i (peso p) fs)"
    using p by (simp add: creditar_def)
  also have "\<dots> = Inr (creditar i (\<Sum>p \<leftarrow> ks. peso_de ps p) (creditar i (peso p) fs))"
    using Cons.prems by (intro Cons.IH) (auto simp: creditar_def)
  also have "\<dots> = Inr (creditar i (\<Sum>p \<leftarrow> k # ks. peso_de ps p) fs)"
    using Cons.prems p by (simp add: creditar_creditar)
  finally show ?case .
qed

lemma map_func_id_creditar: "map func_id (creditar i x fs) = map func_id fs"
proof (cases "i < length fs")
  case True
  then show ?thesis by (simp add: creditar_def map_update list_update_same_conv)
next
  case False
  then show ?thesis by (simp add: creditar_def list_update_beyond)
qed

lemma nomeia_ids: "map func_id fs = map func_id fs' \<Longrightarrow> nomeia fs k i = nomeia fs' k i"
  using posicao_ids [of fs fs' k] posicao_nomeia by metis

lemma carga_spec_Nil: "carga_spec self [] i = 0"
  by (simp add: carga_spec_def)

lemma carga_spec_Cons:
  "carga_spec self ((k, ids) # resto) i =
     (if nomeia (funcionarios self) k i then (\<Sum>p \<leftarrow> ids. peso_de (processos self) p) else 0)
       + carga_spec self resto i"
  by (simp add: carga_spec_def)

lemma calcular_cargas_closed:
  assumes "\<forall>(k, ids) \<in> set sol. k \<in> func_id ` set (funcionarios self) \<and> set ids \<subseteq> proc_id ` set (processos self)"
    and "map func_id fs = map func_id (funcionarios self)"
  shows "calcular_cargas (processos self) sol fs =
           Inr (map (\<lambda>i. (fs ! i)\<lparr>carga_atual := carga_atual (fs ! i) + carga_spec self sol i\<rparr>)
                  [0..<length fs])"
  using assms
proof (induction sol arbitrary: fs)
  case Nil
  show ?case by (simp add: carga_spec_Nil map_nth)
next
  case (Cons par resto)
  obtain k ids where par: "par = (k, ids)" by (cases par)
  have ids: "set ids \<subseteq> proc_id ` set (processos self)"
    and k: "k \<in> func_id ` set fs"
    using Cons.prems par by (auto simp flip: set_map)
  from k obtain i where i: "posicao_funcionario fs k = Inr i" "i < length fs"
    using posicao_found by blast
  let ?x = "\<Sum>p \<leftarrow> ids. peso_de (processos self) p"
  let ?fs1 = "creditar i ?x fs"
  have ids1: "map func_id ?fs1 = map func_id (funcionarios self)"
    using Cons.prems(2) by (simp add: map_func_id_creditar)
  have len1: "length ?fs1 = length fs" by (simp add: creditar_def)
  have nom: "\<And>j. nomeia (funcionarios self) k j \<longleftrightarrow> j = i"
    using i(1) posicao_nomeia nomeia_ids [OF Cons.prems(2)] by (metis sum.inject(2))
  have "calcular_cargas (processos self) (par # resto) fs =
          calcular_cargas (processos self) resto ?fs1"
    using i ids by (simp add: par somar_pesos_closed)
  also have "\<dots> = Inr (map (\<lambda>j. (?fs1 ! j)\<lparr>carga_atual := carga_atual (?fs1 ! j) + carga_spec self resto j\<rparr>)
                  [0..<length ?fs1])"
    using Cons.prems(1) ids1 by (intro Cons.IH) auto
  also have "\<dots> = Inr (map (\<lambda>j. (fs ! j)\<lparr>carga_atual := carga_atual (fs ! j) + carga_spec self (par # resto) j\<rparr>)
                  [0..<length fs])"
    using i(2) by (auto simp: par len1 carga_spec_Cons nom creditar_def nth_list_update)
  finally show ?case .
qed

lemma penalizar_sum:
  "penalizar fs acc =
     acc + (\<Sum>f \<leftarrow> fs. if carga_atual f > carga_horaria f
                          then (carga_atual f - carga_horaria f) * 1000 else 0)"
  by (induction fs arbitrary: acc) auto

lemma py_max_Max: "xs \<noteq> [] \<Longrightarrow> py_max xs = Inr (Max (set xs))"
proof (cases xs)
  case Nil
  assume "xs \<noteq> []"
  with Nil show ?thesis by simp
next
  case (Cons y ys)
  show ?thesis unfolding Cons py_max.simps Max.set_eq_fold ..
qed

lemma py_min_Min: "xs \<noteq> [] \<Longrightarrow> py_min xs = Inr (Min (set xs))"
proof (cases xs)
  case Nil
  assume "xs \<noteq> []"
  with Nil show ?thesis by simp
next
  case (Cons y ys)
  show ?thesis unfolding Cons py_min.simps Min.set_eq_fold ..
qed

lemma calcular_fitness_eq:
  assumes "funcionarios self \<noteq> []"
    and "\<forall>(k, ids) \<in> set sol. k \<in> func_id ` set (funcionarios self) \<and> set ids \<subseteq> proc_id ` set (processos self)"
  shows "calcular_fitness self sol =
           Inr (fitness_spec self sol, self\<lparr>funcionarios := com_cargas self sol\<rparr>)"
proof -
  let ?fs0 = "map (\<lambda>f. f\<lparr>carga_atual := 0\<rparr>) (funcionarios self)"
  have ids0: "map func_id ?fs0 = map func_id (funcionarios self)" by simp
  have cargas: "calcular_cargas (processos self) sol ?fs0 = Inr (com_cargas self sol)"
    unfolding calcular_cargas_closed [OF assms(2) ids0] com_cargas_def by simp
  have ne: "map carga_atual (com_cargas self sol) \<noteq> []"
    using assms(1) by (simp add: com_cargas_def)
  have set_cargas: "carga_atual ` set (com_cargas self sol) =
                      carga_spec self sol ` {..<length (funcionarios self)}"
    by (auto simp: com_cargas_def atLeast0LessThan image_iff)
  have pen: "penalizar (com_cargas self sol) 0 =
               (\<Sum>i \<leftarrow> [0..<length (funcionarios self)]. excesso self sol i)"
    unfolding penalizar_sum com_cargas_def
    by (simp add: comp_def excesso_def cong: map_cong if_cong)
  show ?thesis
    unfolding calcular_fitness_def cargas
    by (simp add: py_max_Max [OF ne] py_min_Min [OF ne] set_cargas pen fitness_spec_def)
qed

lemma excesso_nonneg: "0 \<le> excesso self sol i"
  by (simp add: excesso_def)

lemma fitness_spec_nonneg:
  assumes "funcionarios self \<noteq> []"
  shows "0 \<le> fitness_spec self sol"
proof -
  let ?S = "carga_spec self sol ` {..<length (funcionarios self)}"
  have fin: "finite ?S" by simp
  have "carga_spec self sol 0 \<in> ?S" using assms by auto
  then have "Min ?S \<le> carga_spec self sol 0" "carga_spec self sol 0 \<le> Max ?S"
    using fin by (auto intro: Min_le Max_ge)
  then have "Min ?S \<le> Max ?S" by linarith
  moreover have "0 \<le> (\<Sum>i \<leftarrow> [0..<length (funcionarios self)]. excesso self sol i)"
    by (rule sum_list_nonneg) (auto simp: excesso_nonneg)
  ultimately show ?thesis by (simp add: fitness_spec_def)
qed

lemma calcular_fitness_vazio:
  "funcionarios self = [] \<Longrightarrow>
   calcular_fitness self sol = Inl (if sol = [] then ValueError else StopIteration)"
  by (cases sol) (auto simp: calcular_fitness_def)

text \<open>
  Claim C9.  With no employee at all, \<open>calcular_fitness\<close> never returns a fitness: it
  raises \<^verbatim>\<open>ValueError\<close> from \<^verbatim>\<open>max\<close> of the empty list of loads when the solution
  is empty, and \<^verbatim>\<open>StopIteration\<close> from the employee lookup otherwise.
\<close>

theorem calcular_fitness_sem_funcionarios:
  "funcionarios self = [] \<Longrightarrow>
   calcular_fitness self sol = Inl (if sol = [] then ValueError else StopIteration)"
  by (rule calcular_fitness_vazio)

theorem calcular_fitness_sem_funcionarios_witness:
  "funcionarios (init 100 50 (1 / 10) (8 / 10)) = []
   \<and> calcular_fitness (init 100 50 (1 / 10) (8 / 10)) [] = Inl ValueError
   \<and> calcular_fitness (init 100 50 (1 / 10) (8 / 10)) [(1, [0])] = Inl StopIteration"
proof -
  have h: "funcionarios (init 100 50 (1 / 10) (8 / 10)) = []"
    by (simp add: init_def)
  show ?thesis
    using h calcular_fitness_sem_funcionarios [OF h, of "[]"]
      calcular_fitness_sem_funcionarios [OF h, of "[(1, [0])]"]
    by simp
qed

section \<open>The loop, the store and the initializer\<close>

lemma crossover_copia:
  "taxa_crossover self < reais g (lidos_reais g) \<Longrightarrow>
   crossover self m pai1 pai2 g = Inr (pai1, m, g\<lparr>lidos_reais := Suc (lidos_reais g)\<rparr>)"
  by (simp add: crossover_def random_random_def)

lemma mutacao_nada:
  "taxa_mutacao self < reais g (lidos_reais g) \<Longrightarrow>
   mutacao self m sol g = (None, m, g\<lparr>lidos_reais := Suc (lidos_reais g)\<rparr>)"
  by (simp add: mutacao_def random_random_def)

lemma calcular_fitness_frame:
  "calcular_fitness self sol = Inr (fit, self') \<Longrightarrow>
   \<exists>fs. self' = self\<lparr>funcionarios := fs\<rparr>"
  by (auto simp: calcular_fitness_def split: sum.splits)

lemma avaliar_frame:
  "avaliar self m pop = Inr (fits, self') \<Longrightarrow> \<exists>fs. self' = self\<lparr>funcionarios := fs\<rparr>"
proof (induction pop arbitrary: self fits self')
  case Nil
  then show ?case by (auto intro: exI [of _ "funcionarios self"])
next
  case (Cons s pop)
  from Cons.prems obtain fit self1 fits1 where
    a: "calcular_fitness self (conteudo m s) = Inr (fit, self1)"
    and b: "avaliar self1 m pop = Inr (fits1, self')"
    by (auto split: sum.splits)
  from calcular_fitness_frame [OF a] obtain fs1 where "self1 = self\<lparr>funcionarios := fs1\<rparr>" ..
  moreover from Cons.IH [OF b] obtain fs2 where "self' = self1\<lparr>funcionarios := fs2\<rparr>" ..
  ultimately show ?case by auto
qed

lemma avaliar_map_fst: "avaliar self m pop = Inr (fits, self') \<Longrightarrow> map fst fits = pop"
  by (induction pop arbitrary: self fits self') (auto split: sum.splits)

lemma menor_igual_refl: "menor_igual a a"
  by (cases a) auto

lemma menor_igual_trans: "menor_igual a b \<Longrightarrow> menor_igual b c \<Longrightarrow> menor_igual a c"
  by (cases a; cases b; cases c) auto

lemma menor_que_menor_igual: "menor_que x t \<Longrightarrow> menor_igual (Finito x) t"
  by (cases t) auto

lemma sort_key_head_min:
  assumes "sort_key f xs = y # ys" "x \<in> set xs"
  shows "f y \<le> f x"
proof -
  have "sorted (map f (sort_key f xs))" by (rule sorted_sort_key)
  moreover have "x \<in> set (sort_key f xs)" using assms(2) by simp
  ultimately show ?thesis using assms(1) by auto
qed

lemma geracao_rastreador:
  assumes "geracao self pop m g = Inr (self', pop', m', g')"
  shows "\<exists>fits self1 s0 f0.
           avaliar self m pop = Inr (fits, self1) \<and> (s0, f0) \<in> set fits
           \<and> (\<forall>x \<in> set fits. f0 \<le> snd x)
           \<and> rastreador self' =
               (if menor_que f0 (melhor_fitness self) then (Some s0, Finito f0) else rastreador self)"
proof -
  from assms obtain fits self1 where av: "avaliar self m pop = Inr (fits, self1)"
    by (auto simp: geracao_def split: sum.splits)
  from assms av obtain s0 f0 resto where srt: "sort_key snd fits = (s0, f0) # resto"
    by (auto simp: geracao_def split: sum.splits list.splits)
  from avaliar_frame [OF av] obtain fs where self1: "self1 = self\<lparr>funcionarios := fs\<rparr>" ..
  have mem: "(s0, f0) \<in> set fits"
    using srt by (metis list.set_intros(1) set_sort)
  have mn: "\<forall>x \<in> set fits. f0 \<le> snd x"
    using sort_key_head_min [OF srt] by auto
  have "self' = (if menor_que f0 (melhor_fitness self1)
                 then self1\<lparr>melhor_solucao := Some s0, melhor_fitness := Finito f0\<rparr> else self1)"
    using assms av srt by (auto simp: geracao_def split: sum.splits)
  then have "rastreador self' =
               (if menor_que f0 (melhor_fitness self) then (Some s0, Finito f0) else rastreador self)"
    by (simp add: self1 rastreador_def)
  with av mem mn show ?thesis by blast
qed

lemma geracao_nao_aumenta:
  assumes "geracao self pop m g = Inr (self', pop', m', g')"
  shows "menor_igual (melhor_fitness self') (melhor_fitness self)"
proof -
  from geracao_rastreador [OF assms] obtain s0 f0 where
    "rastreador self' =
       (if menor_que f0 (melhor_fitness self) then (Some s0, Finito f0) else rastreador self)"
    by blast
  then show ?thesis
    by (auto simp: rastreador_def menor_igual_refl menor_que_menor_igual split: if_splits)
qed

lemma laco_nao_aumenta:
  "laco n self pop m g = Inr (self', pop', m', g') \<Longrightarrow>
   menor_igual (melhor_fitness self') (melhor_fitness self)"
proof (induction n arbitrary: self pop m g)
  case 0
  then show ?case by (simp add: menor_igual_refl)
next
  case (Suc n)
  from Suc.prems obtain self1 pop1 m1 g1 where
    a: "geracao self pop m g = Inr (self1, pop1, m1, g1)"
    and b: "laco n self1 pop1 m1 g1 = Inr (self', pop', m', g')"
    by (auto split: sum.splits)
  show ?case
    using menor_igual_trans [OF Suc.IH [OF b] geracao_nao_aumenta [OF a]] .
qed

lemma laco_add:
  "laco (i + j) self pop m g =
     (case laco i self pop m g of
        Inl e \<Rightarrow> Inl e
      | Inr (self', pop', m', g') \<Rightarrow> laco j self' pop' m' g')"
  by (induction i arbitrary: self pop m g) (auto split: sum.splits)

lemma laco_monotono:
  assumes "i \<le> j"
    and "laco i self pop m g = Inr (self1, pop1, m1, g1)"
    and "laco j self pop m g = Inr (self2, pop2, m2, g2)"
  shows "menor_igual (melhor_fitness self2) (melhor_fitness self1)"
proof -
  have "laco j self pop m g = laco (j - i) self1 pop1 m1 g1"
    using laco_add [of i "j - i" self pop m g] assms(1,2) by simp
  then show ?thesis using assms(3) laco_nao_aumenta by metis
qed

lemma alocar_proximo: "alocar v m = (s, m') \<Longrightarrow> proximo m' = proximo m + length v"
  by (induction v arbitrary: m s m') (auto split: prod.splits)

lemma alocar_preserva:
  "alocar v m = (s, m') \<Longrightarrow> a < proximo m \<Longrightarrow> listas m' a = listas m a"
proof (induction v arbitrary: m s m')
  case Nil
  then show ?case by simp
next
  case (Cons par resto)
  obtain k xs where par: "par = (k, xs)" by (cases par)
  let ?m1 = "m\<lparr>listas := (listas m)(proximo m := xs), proximo := Suc (proximo m)\<rparr>"
  from Cons.prems(1) obtain s1 where s1: "alocar resto ?m1 = (s1, m')"
    by (auto simp: par split: prod.splits)
  have "listas m' a = listas ?m1 a"
    using Cons.IH [OF s1] Cons.prems(2) by simp
  then show ?case using Cons.prems(2) by simp
qed

lemma alocar_enderecos:
  "alocar v m = (s, m') \<Longrightarrow>
   distinct (map snd s) \<and> (\<forall>a \<in> set (map snd s). proximo m \<le> a) \<and> map fst s = map fst v"
proof (induction v arbitrary: m s m')
  case Nil
  then show ?case by simp
next
  case (Cons par resto)
  obtain k xs where par: "par = (k, xs)" by (cases par)
  let ?m1 = "m\<lparr>listas := (listas m)(proximo m := xs), proximo := Suc (proximo m)\<rparr>"
  from Cons.prems(1) obtain s1 where s1: "alocar resto ?m1 = (s1, m')" and s: "s = (k, proximo m) # s1"
    by (auto simp: par split: prod.splits)
  have ih: "distinct (map snd s1)" "\<forall>a \<in> set (map snd s1). Suc (proximo m) \<le> a"
    "map fst s1 = map fst resto"
    using Cons.IH [OF s1] by simp_all
  from ih(2) have "proximo m \<notin> set (map snd s1)" by force
  moreover from ih(2) have "\<forall>a \<in> set (map snd s1). proximo m \<le> a" by force
  ultimately show ?case using ih(1,3) by (simp add: s par)
qed

lemma alocar_conteudo: "alocar v m = (s, m') \<Longrightarrow> conteudo m' s = v"
proof (induction v arbitrary: m s m')
  case Nil
  then show ?case by (simp add: conteudo_def)
next
  case (Cons par resto)
  obtain k xs where par: "par = (k, xs)" by (cases par)
  let ?m1 = "m\<lparr>listas := (listas m)(proximo m := xs), proximo := Suc (proximo m)\<rparr>"
  from Cons.prems(1) obtain s1 where s1: "alocar resto ?m1 = (s1, m')" and s: "s = (k, proximo m) # s1"
    by (auto simp: par split: prod.splits)
  have "listas m' (proximo m) = xs"
    using alocar_preserva [OF s1, of "proximo m"] by simp
  moreover have "conteudo m' s1 = resto" using Cons.IH [OF s1] .
  ultimately show ?case by (simp add: s par conteudo_def)
qed

lemma no_dominio_anexar:
  "no_dominio self sol \<Longrightarrow> k \<in> func_id ` set (funcionarios self) \<Longrightarrow>
   p \<in> proc_id ` set (processos self) \<Longrightarrow> no_dominio self (anexar k p sol)"
proof (induction sol)
  case Nil
  then show ?case by (simp add: no_dominio_def)
next
  case (Cons par sol)
  obtain k' vs where par: "par = (k', vs)" by (cases par)
  have resto: "no_dominio self sol" using Cons.prems(1) by (simp add: no_dominio_def)
  show ?case
  proof (cases "k' = k")
    case True
    then show ?thesis using Cons.prems by (simp add: par no_dominio_def)
  next
    case False
    have "no_dominio self (anexar k p sol)" using Cons.IH resto Cons.prems(2,3) by simp
    then show ?thesis using False Cons.prems(1) by (simp add: par no_dominio_def)
  qed
qed

lemma escolher_in: "xs \<noteq> [] \<Longrightarrow> fst (escolher xs g) \<in> set xs"
  by (simp add: escolher_def)

lemma compativeis_subset: "set (compativeis fs c) \<subseteq> set fs"
  by (auto simp: compativeis_def)

lemma distribuir_no_dominio:
  "no_dominio self sol \<Longrightarrow> set prs \<subseteq> set (processos self) \<Longrightarrow>
   no_dominio self (fst (distribuir (funcionarios self) prs sol g))"
proof (induction prs arbitrary: sol g)
  case Nil
  then show ?case by simp
next
  case (Cons p prs)
  show ?case
  proof (cases "compativeis (funcionarios self) (categoria p) = []")
    case True
    then show ?thesis using Cons by simp
  next
    case False
    obtain f g' where e: "escolher (compativeis (funcionarios self) (categoria p)) g = (f, g')"
      by (cases "escolher (compativeis (funcionarios self) (categoria p)) g")
    have "f \<in> set (funcionarios self)"
      using escolher_in [OF False, of g] compativeis_subset e by fastforce
    then have "no_dominio self (anexar (func_id f) (proc_id p) sol)"
      using Cons.prems by (intro no_dominio_anexar) auto
    then show ?thesis using False e Cons by simp
  qed
qed

lemma gerar_no_dominio: "no_dominio self (fst (gerar_solucao_aleatoria self g))"
  unfolding gerar_solucao_aleatoria_def
  by (rule distribuir_no_dominio) (simp_all add: no_dominio_def)

lemma distribuir_sem_funcionarios: "distribuir [] prs sol g = (sol, g)"
  by (induction prs) (simp_all add: compativeis_def)

lemma gerar_sem_funcionarios:
  "funcionarios self = [] \<Longrightarrow> gerar_solucao_aleatoria self g = ([], g)"
  by (simp add: gerar_solucao_aleatoria_def distribuir_sem_funcionarios)

lemma geracao_vazia: "geracao self [] m g = Inl IndexError"
  by (simp add: geracao_def)

lemma encher_sem_pais:
  "int (length nova) < tamanho_populacao self \<Longrightarrow> encher self [] nova m g = Inl IndexError"
  by (subst encher.simps) (simp add: gerar_filho_def random_choice_def)

lemma geracao_um:
  assumes "tamanho_populacao self = 1" "no_dominio self (conteudo m s)"
  shows "geracao self [s] m g = Inl (if funcionarios self = [] then ValueError else IndexError)"
proof (cases "funcionarios self = []")
  case True
  have "conteudo m s = []"
    using assms(2) True by (cases "conteudo m s") (auto simp: no_dominio_def)
  then show ?thesis
    using True by (simp add: geracao_def calcular_fitness_vazio)
next
  case False
  have dom: "\<forall>(k, ids) \<in> set (conteudo m s).
               k \<in> func_id ` set (funcionarios self) \<and> set ids \<subseteq> proc_id ` set (processos self)"
    using assms(2) by (simp add: no_dominio_def)
  note fit = calcular_fitness_eq [OF False dom]
  show ?thesis
    using False assms(1)
    by (simp add: geracao_def fit py_prefixo_def encher_sem_pais)
qed

lemma executar_sem_geracoes:
  "num_geracoes self \<le> 0 \<Longrightarrow>
   executar self m g =
     (case gerar_populacao self (nat (tamanho_populacao self)) m g of
        (populacao, m1, g1) \<Rightarrow> Inr (melhor_solucao self, self, m1, g1))"
  by (simp add: executar_def split: prod.splits)

lemma executar_populacao_pequena:
  assumes "tamanho_populacao self < 2" "0 < num_geracoes self"
  shows "executar self m g =
           Inl (if tamanho_populacao self = 1 \<and> funcionarios self = [] then ValueError else IndexError)"
proof -
  obtain n where n: "nat (num_geracoes self) = Suc n"
    using assms(2) by (cases "nat (num_geracoes self)") auto
  show ?thesis
  proof (cases "tamanho_populacao self = 1")
    case True
    obtain v g1 where v: "gerar_solucao_aleatoria self g = (v, g1)"
      by (cases "gerar_solucao_aleatoria self g")
    obtain s m1 where s: "alocar v m = (s, m1)" by (cases "alocar v m")
    have "no_dominio self v" using gerar_no_dominio [of self g] v by simp
    then have "no_dominio self (conteudo m1 s)" using alocar_conteudo [OF s] by simp
    from geracao_um [OF True this] show ?thesis
      using True by (simp add: executar_def n v s)
  next
    case False
    then have "nat (tamanho_populacao self) = 0" using assms(1) by simp
    then show ?thesis using False by (simp add: executar_def n geracao_vazia)
  qed
qed

section \<open>Claims about the rates, the tracker and the configuration\<close>

text \<open>
  Claim C8, as amended.  \<^verbatim>\<open>random.random()\<close> can return exactly 0, and the operators
  fire unless the draw is strictly greater than the rate.  With a crossover rate of 0,
  for every draw greater than 0, \<open>crossover\<close> returns the first parent's keys and lists
  and leaves the store as it was, so the child has the first parent's content and
  fitness; with a mutation rate of 0, for every draw greater than 0, \<open>mutacao\<close> raises
  nothing and leaves the store as it was.
\<close>

theorem taxa_zero:
  assumes "0 < reais g (lidos_reais g)"
  shows "(taxa_crossover self = 0 \<longrightarrow>
            crossover self m pai1 pai2 g = Inr (pai1, m, g\<lparr>lidos_reais := Suc (lidos_reais g)\<rparr>))
       \<and> (taxa_mutacao self = 0 \<longrightarrow>
            mutacao self m sol g = (None, m, g\<lparr>lidos_reais := Suc (lidos_reais g)\<rparr>))"
  using assms by (simp add: crossover_copia mutacao_nada)

theorem taxa_zero_witness:
  "0 < reais acaso_troca (lidos_reais acaso_troca)
   \<and> crossover (dois_funcionarios\<lparr>taxa_crossover := 0\<rparr>) armazem_ab sol_a sol_b acaso_troca
       = Inr (sol_a, armazem_ab, acaso_troca\<lparr>lidos_reais := Suc (lidos_reais acaso_troca)\<rparr>)
   \<and> mutacao (dois_funcionarios\<lparr>taxa_mutacao := 0\<rparr>) armazem_ab sol_a acaso_troca
       = (None, armazem_ab, acaso_troca\<lparr>lidos_reais := Suc (lidos_reais acaso_troca)\<rparr>)"
proof -
  have h: "0 < reais acaso_troca (lidos_reais acaso_troca)" by (simp add: acaso_troca_def)
  show ?thesis
    using h taxa_zero [OF h, of "dois_funcionarios\<lparr>taxa_crossover := 0\<rparr>" armazem_ab sol_a sol_b]
      taxa_zero [OF h, of "dois_funcionarios\<lparr>taxa_mutacao := 0\<rparr>" armazem_ab _ _ sol_a]
    by simp
qed

text \<open>
  Claim C8 as stated fails at the draw 0: with crossover rate 0 the child of
  \<open>{1: [0, 1]}\<close> (fitness 10) is the rebuilt \<open>{1: [0], 2: [1]}\<close> (fitness 0), and with
  mutation rate 0 the solution \<open>{1: [0], 2: [1]}\<close> becomes \<open>{1: [], 2: [1, 0]}\<close>.
\<close>

theorem taxa_zero_counterexample:
  "taxa_crossover (dois_funcionarios\<lparr>taxa_crossover := 0\<rparr>) = 0
   \<and> reais acaso_zero (lidos_reais acaso_zero) = 0
   \<and> \<not> isl (crossover (dois_funcionarios\<lparr>taxa_crossover := 0\<rparr>) armazem_ab sol_b sol_b acaso_zero)
   \<and> conteudo armazem_ab sol_b = [(1, [0, 1])]
   \<and> conteudo
        (fst (snd (projr (crossover (dois_funcionarios\<lparr>taxa_crossover := 0\<rparr>) armazem_ab sol_b sol_b acaso_zero))))
        (fst (projr (crossover (dois_funcionarios\<lparr>taxa_crossover := 0\<rparr>) armazem_ab sol_b sol_b acaso_zero)))
       = [(1, [0]), (2, [1])]
   \<and> map_sum id fst (calcular_fitness dois_funcionarios [(1, [0, 1])]) = Inr 10
   \<and> map_sum id fst (calcular_fitness dois_funcionarios [(1, [0]), (2, [1])]) = Inr 0
   \<and> taxa_mutacao (dois_funcionarios\<lparr>taxa_mutacao := 0\<rparr>) = 0
   \<and> fst (mutacao (dois_funcionarios\<lparr>taxa_mutacao := 0\<rparr>) armazem_ab sol_a acaso_zero) = None
   \<and> conteudo armazem_ab sol_a = [(1, [0]), (2, [1])]
   \<and> apos_mutacao (dois_funcionarios\<lparr>taxa_mutacao := 0\<rparr>) armazem_ab sol_a acaso_zero
       = [(1, []), (2, [1, 0])]"
  by code_simp

text \<open>
  Claim C5.  The tracker is \<open>(None, Infinito)\<close> after construction and adding domain data
  leaves it alone.  A generation that completes replaces the tracker by the first member
  of the sorted population, a member of least fitness, exactly when that fitness is
  strictly below the tracked one, and leaves it unchanged otherwise; so the tracked
  fitness after any later generation of a run is at most the one after any earlier
  generation.
\<close>

theorem melhor_fitness_monotono:
  "rastreador (init ng tp tm tc) = (None, Infinito)
   \<and> rastreador (adicionar_funcionario f self) = rastreador self
   \<and> rastreador (adicionar_processo p self) = rastreador self
   \<and> (geracao self pop m g = Inr (self', pop', m', g') \<longrightarrow>
        (\<exists>fits self1 s0 f0.
            avaliar self m pop = Inr (fits, self1) \<and> (s0, f0) \<in> set fits
            \<and> (\<forall>x \<in> set fits. f0 \<le> snd x)
            \<and> rastreador self' =
                (if menor_que f0 (melhor_fitness self) then (Some s0, Finito f0) else rastreador self))
        \<and> menor_igual (melhor_fitness self') (melhor_fitness self))
   \<and> (i \<le> j \<and> laco i self pop m g = Inr (self1, pop1, m1, g1)
        \<and> laco j self pop m g = Inr (self2, pop2, m2, g2) \<longrightarrow>
        menor_igual (melhor_fitness self2) (melhor_fitness self1))"
proof (intro conjI impI)
  show "rastreador (init ng tp tm tc) = (None, Infinito)"
    by (simp add: rastreador_def init_def)
  show "rastreador (adicionar_funcionario f self) = rastreador self"
    by (simp add: rastreador_def adicionar_funcionario_def)
  show "rastreador (adicionar_processo p self) = rastreador self"
    by (simp add: rastreador_def adicionar_processo_def)
next
  assume a: "geracao self pop m g = Inr (self', pop', m', g')"
  show "\<exists>fits self1 s0 f0.
            avaliar self m pop = Inr (fits, self1) \<and> (s0, f0) \<in> set fits
            \<and> (\<forall>x \<in> set fits. f0 \<le> snd x)
            \<and> rastreador self' =
                (if menor_que f0 (melhor_fitness self) then (Some s0, Finito f0) else rastreador self)"
    using a by (rule geracao_rastreador)
  show "menor_igual (melhor_fitness self') (melhor_fitness self)"
    using a by (rule geracao_nao_aumenta)
next
  assume "i \<le> j \<and> laco i self pop m g = Inr (self1, pop1, m1, g1)
        \<and> laco j self pop m g = Inr (self2, pop2, m2, g2)"
  then show "menor_igual (melhor_fitness self2) (melhor_fitness self1)"
    using laco_monotono by blast
qed

theorem melhor_fitness_monotono_witness:
  "(case geracao dois_funcionarios [sol_a, sol_b] armazem_ab (acaso_troca\<lparr>lidos_inteiros := 4\<rparr>) of
      Inl e \<Rightarrow> False
    | Inr (self', resto) \<Rightarrow>
        melhor_fitness dois_funcionarios = Infinito
        \<and> melhor_fitness self' = Finito 0
        \<and> menor_igual (melhor_fitness self') (melhor_fitness dois_funcionarios))
   \<and> (case laco 1 dois_funcionarios [sol_a, sol_b] armazem_ab (acaso_troca\<lparr>lidos_inteiros := 4\<rparr>) of
      Inl e \<Rightarrow> False
    | Inr (self2, resto) \<Rightarrow> menor_igual (melhor_fitness self2) (melhor_fitness dois_funcionarios))"
proof -
  let ?g = "acaso_troca\<lparr>lidos_inteiros := 4\<rparr>"
  have ok: "(case geracao dois_funcionarios [sol_a, sol_b] armazem_ab ?g of
               Inl e \<Rightarrow> False
             | Inr (self', resto) \<Rightarrow>
                 melhor_fitness dois_funcionarios = Infinito \<and> melhor_fitness self' = Finito 0)"
    by code_simp
  then obtain self' pop' m' g' where
    a: "geracao dois_funcionarios [sol_a, sol_b] armazem_ab ?g = Inr (self', pop', m', g')"
    by (cases "geracao dois_funcionarios [sol_a, sol_b] armazem_ab ?g") auto
  have l0: "laco 0 dois_funcionarios [sol_a, sol_b] armazem_ab ?g
              = Inr (dois_funcionarios, [sol_a, sol_b], armazem_ab, ?g)"
    by simp
  have l1: "laco 1 dois_funcionarios [sol_a, sol_b] armazem_ab ?g = Inr (self', pop', m', g')"
    using a by simp
  have le: "(0::nat) \<le> 1" by simp
  from melhor_fitness_monotono [where self = dois_funcionarios and pop = "[sol_a, sol_b]"
      and m = armazem_ab and g = ?g and self' = self' and pop' = pop' and m' = m' and g' = g'
      and i = 0 and j = 1 and ?self1.0 = dois_funcionarios and ?pop1.0 = "[sol_a, sol_b]"
      and ?m1.0 = armazem_ab and ?g1.0 = ?g and ?self2.0 = self' and ?pop2.0 = pop'
      and ?m2.0 = m' and ?g2.0 = g']
  have "menor_igual (melhor_fitness self') (melhor_fitness dois_funcionarios)"
    using a l0 l1 le by blast
  then show ?thesis using ok a l1 by simp
qed

text \<open>
  Claim C3, as amended.  Nothing validates the configuration: \<open>init\<close> stores the four
  parameters as given and \<open>executar\<close> starts the run with them.  With a generation count
  of 0 or less the run performs no generation and returns the tracker's solution without
  raising; with a population size below 2 and at least one generation it raises inside the
  first generation (\<^verbatim>\<open>ValueError\<close> for one member and no employee, \<^verbatim>\<open>IndexError\<close>
  otherwise); a negative rate is used as it is, and for draws from 0 upwards its operator
  never fires.
\<close>

theorem configuracao_nao_validada:
  "(num_geracoes (init ng tp tm tc) = ng \<and> tamanho_populacao (init ng tp tm tc) = tp
      \<and> taxa_mutacao (init ng tp tm tc) = tm \<and> taxa_crossover (init ng tp tm tc) = tc)
   \<and> (num_geracoes self \<le> 0 \<longrightarrow>
        executar self m g =
          (case gerar_populacao self (nat (tamanho_populacao self)) m g of
             (populacao, m1, g1) \<Rightarrow> Inr (melhor_solucao self, self, m1, g1)))
   \<and> (tamanho_populacao self < 2 \<and> 0 < num_geracoes self \<longrightarrow>
        executar self m g =
          Inl (if tamanho_populacao self = 1 \<and> funcionarios self = [] then ValueError else IndexError))
   \<and> (taxa_crossover self < 0 \<and> 0 \<le> reais g (lidos_reais g) \<longrightarrow>
        crossover self m pai1 pai2 g = Inr (pai1, m, g\<lparr>lidos_reais := Suc (lidos_reais g)\<rparr>))
   \<and> (taxa_mutacao self < 0 \<and> 0 \<le> reais g (lidos_reais g) \<longrightarrow>
        mutacao self m sol g = (None, m, g\<lparr>lidos_reais := Suc (lidos_reais g)\<rparr>))"
  by (auto simp: init_def executar_sem_geracoes executar_populacao_pequena
        crossover_copia mutacao_nada simp del: One_nat_def)

theorem configuracao_nao_validada_witness:
  "num_geracoes (init (- 1) 1 2 (- 3)) \<le> 0
   \<and> executar (init (- 1) 1 2 (- 3)) armazem_vazio acaso_troca
       = Inr (None, init (- 1) 1 2 (- 3), armazem_vazio, acaso_troca)
   \<and> tamanho_populacao (init 1 1 2 (- 3)) < 2 \<and> 0 < num_geracoes (init 1 1 2 (- 3))
   \<and> executar (init 1 1 2 (- 3)) armazem_vazio acaso_troca = Inl ValueError
   \<and> taxa_crossover (init 1 1 2 (- 3)) < 0 \<and> 0 \<le> reais acaso_troca (lidos_reais acaso_troca)
   \<and> crossover (init 1 1 2 (- 3)) armazem_ab sol_a sol_b acaso_troca
       = Inr (sol_a, armazem_ab, acaso_troca\<lparr>lidos_reais := Suc (lidos_reais acaso_troca)\<rparr>)
   \<and> taxa_mutacao (init 1 1 (- 2) 3) < 0
   \<and> mutacao (init 1 1 (- 2) 3) armazem_ab sol_a acaso_troca
       = (None, armazem_ab, acaso_troca\<lparr>lidos_reais := Suc (lidos_reais acaso_troca)\<rparr>)"
proof -
  have a: "num_geracoes (init (- 1) 1 2 (- 3)) \<le> 0" by (simp add: init_def)
  have b: "tamanho_populacao (init 1 1 2 (- 3)) < 2 \<and> 0 < num_geracoes (init 1 1 2 (- 3))"
    by (simp add: init_def)
  have c: "taxa_crossover (init 1 1 2 (- 3)) < 0 \<and> 0 \<le> reais acaso_troca (lidos_reais acaso_troca)"
    by (simp add: init_def acaso_troca_def)
  have d: "taxa_mutacao (init 1 1 (- 2) 3) < 0 \<and> 0 \<le> reais acaso_troca (lidos_reais acaso_troca)"
    by (simp add: init_def acaso_troca_def)
  have e: "gerar_populacao (init (- 1) 1 2 (- 3)) (nat (tamanho_populacao (init (- 1) 1 2 (- 3))))
             armazem_vazio acaso_troca = ([[]], armazem_vazio, acaso_troca)"
    by (simp add: init_def gerar_solucao_aleatoria_def)
  have f: "funcionarios (init 1 1 2 (- 3)) = [] \<and> tamanho_populacao (init 1 1 2 (- 3)) = 1"
    by (simp add: init_def)
  note T1 = configuracao_nao_validada [where self = "init (- 1) 1 2 (- 3)" and m = armazem_vazio
      and g = acaso_troca]
  note T2 = configuracao_nao_validada [where self = "init 1 1 2 (- 3)" and m = armazem_vazio
      and g = acaso_troca]
  note T3 = configuracao_nao_validada [where self = "init 1 1 2 (- 3)" and m = armazem_ab
      and g = acaso_troca and ?pai1.0 = sol_a and ?pai2.0 = sol_b]
  note T4 = configuracao_nao_validada [where self = "init 1 1 (- 2) 3" and m = armazem_ab
      and g = acaso_troca and sol = sol_a]
  have r1: "executar (init (- 1) 1 2 (- 3)) armazem_vazio acaso_troca
              = Inr (None, init (- 1) 1 2 (- 3), armazem_vazio, acaso_troca)"
    using T1 a e by (simp add: init_def)
  have r2: "executar (init 1 1 2 (- 3)) armazem_vazio acaso_troca = Inl ValueError"
    using T2 b f by simp
  have r3: "crossover (init 1 1 2 (- 3)) armazem_ab sol_a sol_b acaso_troca
              = Inr (sol_a, armazem_ab, acaso_troca\<lparr>lidos_reais := Suc (lidos_reais acaso_troca)\<rparr>)"
    using T3 c by blast
  have r4: "mutacao (init 1 1 (- 2) 3) armazem_ab sol_a acaso_troca
              = (None, armazem_ab, acaso_troca\<lparr>lidos_reais := Suc (lidos_reais acaso_troca)\<rparr>)"
    using T4 d by blast
  show ?thesis
    using a b c d r1 r2 r3 r4 by blast
qed

text \<open>
  Claim C3 as stated fails: a run with mutation rate 2 and crossover rate -1 completes
  its generation and returns a solution; a run with generation count -1 and population
  size 1 returns \<open>None\<close>.  Neither raises.
\<close>

theorem taxas_invalidas_aceitas:
  "\<not> isl (executar (dois_funcionarios\<lparr>taxa_mutacao := 2, taxa_crossover := - 1\<rparr>) armazem_vazio acaso_troca)
   \<and> fst (projr (executar (dois_funcionarios\<lparr>taxa_mutacao := 2, taxa_crossover := - 1\<rparr>)
                    armazem_vazio acaso_troca)) = Some [(1, 0), (2, 1)]
   \<and> taxa_mutacao (fst (snd (projr (executar (dois_funcionarios\<lparr>taxa_mutacao := 2, taxa_crossover := - 1\<rparr>)
                    armazem_vazio acaso_troca)))) = 2
   \<and> taxa_crossover (fst (snd (projr (executar (dois_funcionarios\<lparr>taxa_mutacao := 2, taxa_crossover := - 1\<rparr>)
                    armazem_vazio acaso_troca)))) = - 1
   \<and> \<not> isl (executar (init (- 1) 1 (1 / 10) (8 / 10)) armazem_vazio acaso_troca)
   \<and> fst (projr (executar (init (- 1) 1 (1 / 10) (8 / 10)) armazem_vazio acaso_troca)) = None
   \<and> num_geracoes (fst (snd (projr (executar (init (- 1) 1 (1 / 10) (8 / 10)) armazem_vazio acaso_troca)))) = - 1
   \<and> tamanho_populacao (fst (snd (projr (executar (init (- 1) 1 (1 / 10) (8 / 10)) armazem_vazio acaso_troca)))) = 1"
  by code_simp

section \<open>Shared lists\<close>

text \<open>
  Claim C1 (the code departs from it).  One generation from the population
  \<open>{1: [0], 2: [1]}\<close>, \<open>{1: [0, 1]}\<close> with population size 2: the first solution is the
  only survivor and stays first in the next population.  The crossover draw 0.9 exceeds
  the rate 0.8, so the child is \<^verbatim>\<open>pai1.copy()\<close>, which shares the survivor's lists; the
  mutation of the child then moves process 0 from employee 1 to employee 2 in those lists.
  The survivor's content changes from \<open>{1: [0], 2: [1]}\<close> to \<open>{1: [], 2: [1, 0]}\<close> and its
  fitness from 0 to 10.
\<close>

theorem sobrevivente_alterado:
  "\<not> isl (geracao dois_funcionarios [sol_a, sol_b] armazem_ab (acaso_troca\<lparr>lidos_inteiros := 4\<rparr>))
   \<and> fst (snd (projr (geracao dois_funcionarios [sol_a, sol_b] armazem_ab
                         (acaso_troca\<lparr>lidos_inteiros := 4\<rparr>)))) ! 0 = sol_a
   \<and> conteudo armazem_ab sol_a = [(1, [0]), (2, [1])]
   \<and> conteudo (fst (snd (snd (projr (geracao dois_funcionarios [sol_a, sol_b] armazem_ab
                         (acaso_troca\<lparr>lidos_inteiros := 4\<rparr>)))))) sol_a = [(1, []), (2, [1, 0])]
   \<and> map_sum id fst (calcular_fitness dois_funcionarios [(1, [0]), (2, [1])]) = Inr 0
   \<and> map_sum id fst (calcular_fitness dois_funcionarios [(1, []), (2, [1, 0])]) = Inr 10"
  by code_simp

text \<open>
  Claim C10 (the code departs from it).  A whole run of one generation on the same data,
  from the empty store: the solution \<open>executar\<close> returns was recorded with fitness 0, and
  its content at the end of the run is \<open>{1: [], 2: [1, 0]}\<close>, of fitness 10.
\<close>

theorem melhor_solucao_alterada:
  "\<not> isl (executar dois_funcionarios armazem_vazio acaso_troca)
   \<and> fst (projr (executar dois_funcionarios armazem_vazio acaso_troca)) = Some [(1, 0), (2, 1)]
   \<and> melhor_fitness (fst (snd (projr (executar dois_funcionarios armazem_vazio acaso_troca)))) = Finito 0
   \<and> conteudo (fst (snd (snd (projr (executar dois_funcionarios armazem_vazio acaso_troca)))))
        [(1, 0), (2, 1)] = [(1, []), (2, [1, 0])]
   \<and> map_sum id fst
        (calcular_fitness (fst (snd (projr (executar dois_funcionarios armazem_vazio acaso_troca))))
           [(1, []), (2, [1, 0])]) = Inr 10"
  by code_simp

section \<open>Initializer, crossover and mutation\<close>

lemma ids_Nil: "ids_atribuidos [] = []"
  by (simp add: ids_atribuidos_def)

lemma ids_Cons: "ids_atribuidos ((k, xs) # resto) = xs @ ids_atribuidos resto"
  by (simp add: ids_atribuidos_def)

lemma mset_ids_anexar:
  "mset (ids_atribuidos (anexar k v sol)) = mset (ids_atribuidos sol) + {#v#}"
  by (induction sol) (auto simp: ids_Nil ids_Cons)

lemma mset_ids_retirar:
  "mset (ids_atribuidos (retirar p sol)) = mset (ids_atribuidos sol) - {#p#}"
proof (induction sol)
  case Nil
  then show ?case by (simp add: ids_Nil)
next
  case (Cons par sol)
  obtain k xs where par: "par = (k, xs)" by (cases par)
  show ?case
  proof (cases "p \<in> set xs")
    case True
    then show ?thesis by (simp add: par ids_Cons)
  next
    case False
    then have c: "count (mset xs) p = 0" by (metis not_in_iff set_mset_mset)
    have "mset xs + mset (ids_atribuidos sol) - {#p#} = mset xs + (mset (ids_atribuidos sol) - {#p#})"
      by (intro multiset_eqI) (auto simp: c)
    then show ?thesis using False Cons.IH by (simp add: par ids_Cons)
  qed
qed

lemma mset_ids_acrescentar:
  "k \<in> fst ` set sol \<Longrightarrow>
   mset (ids_atribuidos (acrescentar k p sol)) = mset (ids_atribuidos sol) + {#p#}"
proof (induction sol)
  case Nil
  then show ?case by simp
next
  case (Cons par sol)
  obtain k' xs where par: "par = (k', xs)" by (cases par)
  show ?case
  proof (cases "k' = k")
    case True
    then show ?thesis by (simp add: par ids_Cons)
  next
    case False
    then have "k \<in> fst ` set sol" using Cons.prems by (auto simp: par)
    then show ?thesis using False Cons.IH by (simp add: par ids_Cons)
  qed
qed

lemma distinct_mset_sub:
  "mset ys \<subseteq># mset xs \<Longrightarrow> distinct xs \<Longrightarrow> distinct ys"
proof (induction ys arbitrary: xs)
  case Nil
  then show ?case by simp
next
  case (Cons y ys)
  have y: "y \<in> set xs"
    using Cons.prems(1) by (metis insert_subset_eq_iff mset.simps(2) set_mset_mset)
  have sub: "mset ys \<subseteq># mset (remove1 y xs)"
    using Cons.prems(1) by (simp add: insert_subset_eq_iff)
  have d: "distinct (remove1 y xs)" using Cons.prems(2) by simp
  have "distinct ys" using Cons.IH [OF sub d] .
  moreover have "set ys \<subseteq> set (remove1 y xs)"
    using sub by (metis set_mset_mono set_mset_mset)
  then have "y \<notin> set ys" using Cons.prems(2) by auto
  ultimately show ?case by simp
qed

lemma conteudo_Nil: "conteudo m [] = []"
  by (simp add: conteudo_def)

lemma conteudo_Cons: "conteudo m ((k, a) # resto) = (k, listas m a) # conteudo m resto"
  by (simp add: conteudo_def)

lemma conteudo_cong:
  "(\<And>a. a \<in> snd ` set sol \<Longrightarrow> listas m' a = listas m a) \<Longrightarrow> conteudo m' sol = conteudo m sol"
  by (induction sol) (auto simp: conteudo_def)

lemma remover_fora:
  "a \<notin> snd ` set sol \<Longrightarrow> listas (remover_primeiro p sol m) a = listas m a"
  by (induction sol) auto

lemma conteudo_remover:
  "distinct (map snd sol) \<Longrightarrow>
   conteudo (remover_primeiro p sol m) sol = retirar p (conteudo m sol)"
proof (induction sol)
  case Nil
  then show ?case by (simp add: conteudo_Nil)
next
  case (Cons par sol)
  obtain k a where par: "par = (k, a)" by (cases par)
  have fora: "a \<notin> snd ` set sol" and d: "distinct (map snd sol)"
    using Cons.prems by (auto simp: par)
  show ?case
  proof (cases "p \<in> set (listas m a)")
    case True
    let ?m' = "m\<lparr>listas := (listas m)(a := remove1 p (listas m a))\<rparr>"
    have "conteudo ?m' sol = conteudo m sol"
      using fora by (intro conteudo_cong) auto
    then show ?thesis using True by (simp add: par conteudo_Cons)
  next
    case False
    have "listas (remover_primeiro p sol m) a = listas m a"
      using fora by (rule remover_fora)
    then show ?thesis using False Cons.IH [OF d] by (simp add: par conteudo_Cons)
  qed
qed

lemma conteudo_acrescentar:
  "distinct (map snd sol) \<Longrightarrow> map_of sol k = Some a \<Longrightarrow>
   conteudo (m\<lparr>listas := (listas m)(a := listas m a @ [p])\<rparr>) sol = acrescentar k p (conteudo m sol)"
proof (induction sol)
  case Nil
  then show ?case by simp
next
  case (Cons par sol)
  obtain k' a' where par: "par = (k', a')" by (cases par)
  have fora: "a' \<notin> snd ` set sol" and d: "distinct (map snd sol)"
    using Cons.prems by (auto simp: par)
  let ?m' = "m\<lparr>listas := (listas m)(a := listas m a @ [p])\<rparr>"
  show ?case
  proof (cases "k' = k")
    case True
    then have a: "a' = a" using Cons.prems(2) by (simp add: par)
    have t: "conteudo ?m' sol = conteudo m sol"
      using fora a by (intro conteudo_cong) auto
    have "conteudo ?m' (par # sol) = (k, listas ?m' a) # conteudo ?m' sol"
      unfolding par True a by (rule conteudo_Cons)
    also have "\<dots> = (k, listas m a @ [p]) # conteudo m sol"
      unfolding t by simp
    also have "\<dots> = acrescentar k p (conteudo m (par # sol))"
      unfolding par True a conteudo_Cons by simp
    finally show ?thesis .
  next
    case False
    then have mo: "map_of sol k = Some a" using Cons.prems(2) by (simp add: par)
    then have "a \<in> snd ` set sol" by (metis map_of_SomeD snd_conv image_eqI)
    then have "a' \<noteq> a" using fora by auto
    then show ?thesis using False Cons.IH [OF d mo] by (simp add: par conteudo_Cons)
  qed
qed

lemma map_fst_conteudo: "map fst (conteudo m sol) = map fst sol"
  by (induction sol) (auto simp: conteudo_def)

lemma map_fst_retirar: "map fst (retirar p v) = map fst v"
  by (induction v) auto

lemma py_index_ok:
  "0 \<le> i \<Longrightarrow> i < int (length xs) \<Longrightarrow> py_index xs i = Inr (xs ! nat i)"
  by (simp add: py_index_def)


lemma item_sorteado_in:
  "ids_atribuidos (conteudo m sol) \<noteq> [] \<Longrightarrow>
   item_sorteado m sol g \<in> set (ids_atribuidos (conteudo m sol))"
  by (simp add: item_sorteado_def)


lemma mset_retirar_acrescentar:
  assumes "p \<in> set (ids_atribuidos v)" "k \<in> fst ` set v"
  shows "mset (ids_atribuidos (acrescentar k p (retirar p v))) = mset (ids_atribuidos v)"
proof -
  have "k \<in> fst ` set (retirar p v)"
    using assms(2) map_fst_retirar [of p v] by (metis set_map)
  then have "mset (ids_atribuidos (acrescentar k p (retirar p v)))
               = mset (ids_atribuidos v) - {#p#} + {#p#}"
    by (simp add: mset_ids_acrescentar mset_ids_retirar)
  then show ?thesis using assms(1) by simp
qed

lemma mutacao_sem_disparo:
  "\<not> mutacao_dispara self m sol g \<Longrightarrow>
   mutacao self m sol g = (None, m, g\<lparr>lidos_reais := Suc (lidos_reais g)\<rparr>)"
  by (auto simp: mutacao_dispara_def mutacao_def random_random_def)



lemma mutacao_casos:
  "fst (snd (mutacao self m sol g)) = m
   \<or> (\<exists>p \<in> set (ids_atribuidos (conteudo m sol)).
        fst (snd (mutacao self m sol g)) = remover_primeiro p sol m
        \<or> (\<exists>k a. map_of sol k = Some a
             \<and> fst (snd (mutacao self m sol g)) =
                 (remover_primeiro p sol m)
                   \<lparr>listas := (listas (remover_primeiro p sol m))
                      (a := listas (remover_primeiro p sol m) a @ [p])\<rparr>))"
proof (cases "mutacao_dispara self m sol g")
  case False
  then show ?thesis by (simp add: mutacao_sem_disparo)
next
  case True
  then have ne: "ids_atribuidos (conteudo m sol) \<noteq> []"
    and u: "\<not> taxa_mutacao self < reais g (lidos_reais g)"
    by (auto simp: mutacao_dispara_def)
  let ?p = "item_sorteado m sol g"
  have p: "?p \<in> set (ids_atribuidos (conteudo m sol))" using ne by (rule item_sorteado_in)
  show ?thesis
  proof (cases "py_index (processos self) ?p")
    case (Inl e)
    then have "fst (snd (mutacao self m sol g)) = m"
      using ne u by (simp add: mutacao_def random_random_def escolher_def item_sorteado_def)
    then show ?thesis by simp
  next
    case (Inr q)
    let ?cs = "compativeis (funcionarios self) (categoria q)"
    show ?thesis
    proof (cases "?cs = []")
      case True
      then have "fst (snd (mutacao self m sol g)) = remover_primeiro ?p sol m"
        using ne u Inr by (simp add: mutacao_def random_random_def escolher_def item_sorteado_def)
      then show ?thesis using p by blast
    next
      case False
      let ?k = "func_id (?cs ! (inteiros g (Suc (lidos_inteiros g)) mod length ?cs))"
      show ?thesis
      proof (cases "map_of sol ?k")
        case None
        then have "fst (snd (mutacao self m sol g)) = remover_primeiro ?p sol m"
          using ne u Inr False
          by (simp add: mutacao_def random_random_def escolher_def item_sorteado_def)
        then show ?thesis using p by blast
      next
        case (Some a)
        then have "fst (snd (mutacao self m sol g)) =
                     (remover_primeiro ?p sol m)
                       \<lparr>listas := (listas (remover_primeiro ?p sol m))
                          (a := listas (remover_primeiro ?p sol m) a @ [?p])\<rparr>"
          using ne u Inr False
          by (simp add: mutacao_def random_random_def escolher_def item_sorteado_def)
        then show ?thesis using p Some by blast
      qed
    qed
  qed
qed

lemma mutacao_submset:
  assumes "distinct (map snd sol)"
  shows "mset (ids_atribuidos (apos_mutacao self m sol g)) \<subseteq># mset (ids_atribuidos (conteudo m sol))"
proof -
  from mutacao_casos [of self m sol g]
  consider (a) "fst (snd (mutacao self m sol g)) = m"
    | (b) p where "p \<in> set (ids_atribuidos (conteudo m sol))"
        "fst (snd (mutacao self m sol g)) = remover_primeiro p sol m"
    | (c) p k a where "p \<in> set (ids_atribuidos (conteudo m sol))" "map_of sol k = Some a"
        "fst (snd (mutacao self m sol g)) =
           (remover_primeiro p sol m)
             \<lparr>listas := (listas (remover_primeiro p sol m))
                (a := listas (remover_primeiro p sol m) a @ [p])\<rparr>"
    by blast
  then show ?thesis
  proof cases
    case a
    then show ?thesis by (simp add: apos_mutacao_def)
  next
    case b
    then have "apos_mutacao self m sol g = retirar p (conteudo m sol)"
      using assms by (simp add: apos_mutacao_def conteudo_remover)
    then show ?thesis by (simp add: mset_ids_retirar)
  next
    case c
    have "apos_mutacao self m sol g = acrescentar k p (conteudo (remover_primeiro p sol m) sol)"
      unfolding apos_mutacao_def c(3) using assms c(2) by (rule conteudo_acrescentar)
    then have r: "apos_mutacao self m sol g = acrescentar k p (retirar p (conteudo m sol))"
      using assms by (simp add: conteudo_remover)
    have "k \<in> fst ` set sol" using c(2) by (metis map_of_SomeD fst_conv image_eqI)
    then have "k \<in> fst ` set (conteudo m sol)"
      using map_fst_conteudo [of m sol] by (metis set_map)
    then show ?thesis
      unfolding r using mset_retirar_acrescentar [OF c(1)] by simp
  qed
qed

lemma mutacao_exclusiva:
  "distinct (map snd sol) \<Longrightarrow> distinct (ids_atribuidos (conteudo m sol)) \<Longrightarrow>
   distinct (ids_atribuidos (apos_mutacao self m sol g))"
  using mutacao_submset distinct_mset_sub by blast

lemma distribuir_submset:
  "mset (ids_atribuidos (fst (distribuir fs prs sol g)))
     \<subseteq># mset (ids_atribuidos sol) + mset (map proc_id prs)"
proof (induction prs arbitrary: sol g)
  case Nil
  then show ?case by simp
next
  case (Cons p prs)
  show ?case
  proof (cases "compativeis fs (categoria p) = []")
    case True
    have "mset (ids_atribuidos (fst (distribuir fs prs sol g)))
            \<subseteq># mset (ids_atribuidos sol) + mset (map proc_id prs)"
      by (rule Cons.IH)
    also have "\<dots> \<subseteq># mset (ids_atribuidos sol) + mset (map proc_id (p # prs))"
      by simp
    finally show ?thesis using True by simp
  next
    case False
    obtain f g' where e: "escolher (compativeis fs (categoria p)) g = (f, g')"
      by (cases "escolher (compativeis fs (categoria p)) g")
    have "mset (ids_atribuidos (fst (distribuir fs prs (anexar (func_id f) (proc_id p) sol) g')))
            \<subseteq># mset (ids_atribuidos (anexar (func_id f) (proc_id p) sol)) + mset (map proc_id prs)"
      by (rule Cons.IH)
    then show ?thesis using False e by (simp add: mset_ids_anexar)
  qed
qed

lemma gerar_exclusiva:
  assumes "distinct (map proc_id (processos self))"
  shows "distinct (ids_atribuidos (fst (gerar_solucao_aleatoria self g)))"
proof -
  let ?ps = "sort_key (\<lambda>p. - urgencia p) (processos self)"
  have "mset (map proc_id ?ps) = mset (map proc_id (processos self))" by simp
  then have d: "distinct (map proc_id ?ps)"
    using assms mset_eq_imp_distinct_iff by blast
  have "mset (ids_atribuidos (fst (gerar_solucao_aleatoria self g))) \<subseteq># mset (map proc_id ?ps)"
    using distribuir_submset [of "funcionarios self" ?ps "[]" g]
    by (simp add: gerar_solucao_aleatoria_def ids_Nil)
  then show ?thesis using d by (rule distinct_mset_sub)
qed

lemma redistribuir_submset:
  "redistribuir self ids filho g = Inr (v, g') \<Longrightarrow>
   mset (ids_atribuidos v) \<subseteq># mset (ids_atribuidos filho) + mset ids"
proof (induction ids arbitrary: filho g)
  case Nil
  then show ?case by simp
next
  case (Cons p ids)
  from Cons.prems obtain cs where cs: "compativeis_por_posicao self p = Inr cs"
    by (auto split: sum.splits)
  show ?case
  proof (cases "cs = []")
    case True
    then have "redistribuir self ids filho g = Inr (v, g')" using Cons.prems cs by simp
    then have "mset (ids_atribuidos v) \<subseteq># mset (ids_atribuidos filho) + mset ids"
      by (rule Cons.IH)
    also have "\<dots> \<subseteq># mset (ids_atribuidos filho) + mset (p # ids)" by simp
    finally show ?thesis .
  next
    case False
    obtain f g1 where e: "escolher cs g = (f, g1)" by (cases "escolher cs g")
    then have "redistribuir self ids (anexar (func_id f) p filho) g1 = Inr (v, g')"
      using Cons.prems cs False by simp
    then have "mset (ids_atribuidos v) \<subseteq># mset (ids_atribuidos (anexar (func_id f) p filho)) + mset ids"
      by (rule Cons.IH)
    then show ?thesis by (simp add: mset_ids_anexar)
  qed
qed

lemma distinct_todos_processos: "distinct (todos_processos m pai1 pai2 g)"
  by (simp add: todos_processos_def)

lemma set_todos_processos:
  "set (todos_processos m pai1 pai2 g)
     = set (ids_atribuidos (conteudo m pai1)) \<union> set (ids_atribuidos (conteudo m pai2))"
  by (simp add: todos_processos_def)

lemma crossover_recombinado:
  assumes "reais g (lidos_reais g) \<le> taxa_crossover self"
  shows "crossover self m pai1 pai2 g =
           (case redistribuir self (todos_processos m pai1 pai2 g) []
                   (g\<lparr>lidos_reais := Suc (lidos_reais g)\<rparr>) of
              Inl e \<Rightarrow> Inl e
            | Inr (v, g2) \<Rightarrow> (case alocar v m of (filho, m') \<Rightarrow> Inr (filho, m', g2)))"
  using assms by (simp add: crossover_def random_random_def todos_processos_def)

lemma crossover_exclusiva_recombinado:
  assumes "crossover self m pai1 pai2 g = Inr (filho, m', g')"
    and "reais g (lidos_reais g) \<le> taxa_crossover self"
  shows "distinct (ids_atribuidos (conteudo m' filho))"
proof -
  from assms obtain v where
    r: "redistribuir self (todos_processos m pai1 pai2 g) []
          (g\<lparr>lidos_reais := Suc (lidos_reais g)\<rparr>) = Inr (v, g')"
    and a: "alocar v m = (filho, m')"
    by (auto simp: crossover_recombinado split: sum.splits prod.splits)
  have "mset (ids_atribuidos v) \<subseteq># mset (todos_processos m pai1 pai2 g)"
    using redistribuir_submset [OF r] by (simp add: ids_Nil)
  then have "distinct (ids_atribuidos v)"
    using distinct_todos_processos by (rule distinct_mset_sub)
  then show ?thesis using alocar_conteudo [OF a] by simp
qed

lemma crossover_exclusiva_copia:
  assumes "crossover self m pai1 pai2 g = Inr (filho, m', g')"
    and "taxa_crossover self < reais g (lidos_reais g)"
    and "distinct (ids_atribuidos (conteudo m pai1))"
  shows "distinct (ids_atribuidos (conteudo m' filho))"
  using assms by (simp add: crossover_copia)

lemma compativeis_vazio: "compativeis [] c = []"
  by (simp add: compativeis_def)
lemma compativeis_por_posicao_spec:
  assumes "posicao_e_id self p" "compativeis_spec self p \<noteq> []"
  shows "compativeis_por_posicao self p = Inr (compativeis_spec self p)"
proof -
  have f: "item_com_id self p = Some (processos self ! nat p)"
    and r: "0 \<le> p" "p < int (length (processos self))"
    using assms(1) by (simp_all add: posicao_e_id_def item_com_id_def)
  have spec: "compativeis_spec self p = compativeis (funcionarios self) (categoria (processos self ! nat p))"
    by (simp add: compativeis_spec_def f compativeis_def)
  then have "funcionarios self \<noteq> []" using assms(2) by (auto simp: compativeis_vazio)
  then show ?thesis
    using r by (simp add: compativeis_por_posicao_def py_index_ok spec)
qed

lemma redistribuir_construir:
  assumes "\<forall>p \<in> set ids. posicao_e_id self p \<and> compativeis_spec self p \<noteq> []"
  shows "redistribuir self ids filho g =
           Inr (construir self (posicoes self (inteiros g) (lidos_inteiros g) ids) ids filho,
                g\<lparr>lidos_inteiros := lidos_inteiros g + length ids\<rparr>)"
  using assms
proof (induction ids arbitrary: filho g)
  case Nil
  then show ?case by simp
next
  case (Cons p ids)
  let ?cs = "compativeis_spec self p"
  let ?k = "inteiros g (lidos_inteiros g) mod length ?cs"
  let ?g1 = "g\<lparr>lidos_inteiros := Suc (lidos_inteiros g)\<rparr>"
  have cs: "compativeis_por_posicao self p = Inr ?cs" and ne: "?cs \<noteq> []"
    using Cons.prems by (simp_all add: compativeis_por_posicao_spec)
  have "redistribuir self (p # ids) filho g
          = redistribuir self ids (anexar (func_id (?cs ! ?k)) p filho) ?g1"
    using cs ne by (simp add: escolher_def)
  also have "\<dots> = Inr (construir self (posicoes self (inteiros ?g1) (lidos_inteiros ?g1) ids) ids
                          (anexar (func_id (?cs ! ?k)) p filho),
                        ?g1\<lparr>lidos_inteiros := lidos_inteiros ?g1 + length ids\<rparr>)"
    using Cons.prems by (intro Cons.IH) simp
  also have "\<dots> = Inr (construir self (posicoes self (inteiros g) (lidos_inteiros g) (p # ids)) (p # ids) filho,
                        g\<lparr>lidos_inteiros := lidos_inteiros g + length (p # ids)\<rparr>)"
    by simp
  finally show ?case .
qed

lemma length_posicoes: "length (posicoes self ns i ids) = length ids"
  by (induction ids arbitrary: i) simp_all

lemma posicoes_em_resultados:
  assumes "\<forall>p \<in> set ids. compativeis_spec self p \<noteq> []"
  shows "posicoes self ns i ids \<in> set (resultados self ids)"
  using assms
proof (induction ids arbitrary: i)
  case Nil
  then show ?case by (simp add: resultados_def)
next
  case (Cons p ids)
  have "posicoes self ns (Suc i) ids \<in> set (resultados self ids)"
    using Cons by simp
  moreover have "ns i mod length (compativeis_spec self p) < length (compativeis_spec self p)"
    using Cons.prems by simp
  ultimately show ?case by (auto simp: resultados_def)
qed

lemma mset_ids_construir:
  "length ks = length ids \<Longrightarrow>
   mset (ids_atribuidos (construir self ks ids v)) = mset (ids_atribuidos v) + mset ids"
proof (induction ks arbitrary: ids v)
  case Nil
  then show ?case by simp
next
  case (Cons k ks)
  then obtain p ps where ids: "ids = p # ps" by (cases ids) auto
  with Cons show ?case by (simp add: mset_ids_anexar)
qed

lemma bem_atribuida_anexar:
  assumes "bem_atribuida self v"
    and "item_com_id self p = Some q" "f \<in> set (funcionarios self)"
    and "categoria q \<in> especialidades f"
  shows "bem_atribuida self (anexar (func_id f) p v)"
  using assms(1)
proof (induction v)
  case Nil
  then show ?case using assms(2-4) by (auto simp: bem_atribuida_def)
next
  case (Cons par v)
  obtain k' xs where par: "par = (k', xs)" by (cases par)
  have resto: "bem_atribuida self v" using Cons.prems by (simp add: bem_atribuida_def)
  show ?case
  proof (cases "k' = func_id f")
    case True
    then show ?thesis using Cons.prems assms(2-4) by (auto simp: par bem_atribuida_def)
  next
    case False
    have "bem_atribuida self (anexar (func_id f) p v)" using Cons.IH resto by simp
    then show ?thesis using False Cons.prems by (simp add: par bem_atribuida_def)
  qed
qed

lemma compativeis_spec_nth:
  assumes "k < length (compativeis_spec self p)"
  shows "\<exists>q. item_com_id self p = Some q
             \<and> compativeis_spec self p ! k \<in> set (funcionarios self)
             \<and> categoria q \<in> especialidades (compativeis_spec self p ! k)"
proof (cases "item_com_id self p")
  case None
  then show ?thesis using assms by (simp add: compativeis_spec_def)
next
  case (Some q)
  let ?cs = "filter (\<lambda>f. categoria q \<in> especialidades f) (funcionarios self)"
  have cs: "compativeis_spec self p = ?cs" using Some by (simp add: compativeis_spec_def)
  have "?cs ! k \<in> set ?cs" using assms unfolding cs by (rule nth_mem)
  then have "?cs ! k \<in> set (funcionarios self) \<and> categoria q \<in> especialidades (?cs ! k)"
    unfolding set_filter by blast
  then show ?thesis unfolding cs using Some by blast
qed

lemma bem_atribuida_construir:
  assumes "list_all2 (\<lambda>k p. k < length (compativeis_spec self p)) ks ids" "bem_atribuida self v"
  shows "bem_atribuida self (construir self ks ids v)"
  using assms
proof (induction ks ids arbitrary: v rule: list_all2_induct)
  case Nil
  then show ?case by simp
next
  case (Cons k ks p ids)
  from compativeis_spec_nth [OF Cons.hyps(1)] obtain q where
    "item_com_id self p = Some q" "compativeis_spec self p ! k \<in> set (funcionarios self)"
    "categoria q \<in> especialidades (compativeis_spec self p ! k)"
    by blast
  then have "bem_atribuida self (anexar (func_id (compativeis_spec self p ! k)) p v)"
    using Cons.prems by (intro bem_atribuida_anexar)
  then show ?case using Cons.IH by simp
qed

lemma resultados_list_all2:
  "ks \<in> set (resultados self ids) \<Longrightarrow>
   list_all2 (\<lambda>k p. k < length (compativeis_spec self p)) ks ids"
  by (simp add: resultados_def product_lists_set list_all2_map2)

lemma length_filter_concat:
  "length (filter P (concat xss)) = (\<Sum>xs \<leftarrow> xss. length (filter P xs))"
  by (induction xss) simp_all

lemma length_filter_fixo: "length (filter (\<lambda>_. b) ys) = (if b then length ys else 0)"
  by (cases b) simp_all

lemma sum_list_const_count:
  "(\<Sum>x \<leftarrow> xs. if x = j then n else 0) = count_list xs j * (n::nat)"
  by (induction xs) simp_all

lemma length_product_lists_Cons:
  "length (product_lists (xs # xss)) = length xs * length (product_lists xss)"
  by (induction xs) (simp_all add: length_concat comp_def)

lemma conta_product_lists:
  "i < length xss \<Longrightarrow>
   length (filter (\<lambda>ks. ks ! i = j) (product_lists xss)) * length (xss ! i)
     = length (product_lists xss) * count_list (xss ! i) j"
proof (induction xss arbitrary: i)
  case Nil
  then show ?case by simp
next
  case (Cons xs xss)
  let ?N = "length (product_lists xss)"
  show ?case
  proof (cases i)
    case 0
    have "length (filter (\<lambda>ks. ks ! 0 = j) (product_lists (xs # xss)))
            = (\<Sum>x \<leftarrow> xs. if x = j then ?N else 0)"
      by (simp add: length_filter_concat comp_def filter_map length_filter_fixo cong: map_cong)
    then show ?thesis
      by (simp add: 0 sum_list_const_count length_product_lists_Cons del: product_lists.simps)
  next
    case (Suc i')
    let ?c = "length (filter (\<lambda>ks. ks ! i' = j) (product_lists xss))"
    have i': "i' < length xss" using Cons.prems Suc by simp
    have "length (filter (\<lambda>ks. ks ! Suc i' = j) (product_lists (xs # xss)))
            = (\<Sum>x \<leftarrow> xs. ?c)"
      by (simp add: length_filter_concat comp_def filter_map cong: map_cong)
    then have "length (filter (\<lambda>ks. ks ! Suc i' = j) (product_lists (xs # xss))) = length xs * ?c"
      by (simp add: sum_list_triv)
    then show ?thesis
      using Cons.IH [OF i'] by (simp add: Suc length_product_lists_Cons del: product_lists.simps)
  qed
qed

lemma count_list_upt: "j < n \<Longrightarrow> count_list [0..<n] j = 1"
  by (induction n) (auto simp: less_Suc_eq)

lemma resultados_uniforme:
  assumes "i < length ids" "j < length (compativeis_spec self (ids ! i))"
  shows "length (filter (\<lambda>ks. ks ! i = j) (resultados self ids))
           * length (compativeis_spec self (ids ! i))
         = length (resultados self ids)"
  using conta_product_lists [of i "map (\<lambda>p. [0..<length (compativeis_spec self p)]) ids" j] assms
  by (simp add: resultados_def count_list_upt)

section \<open>Claims about the operators\<close>




text \<open>
  Claim C6.  When the crossover draw does not exceed the rate, and every id held by either
  parent is the position of the process that carries it and has an employee whose
  specialties contain the category of that process, \<open>crossover\<close> returns a child built
  from the set of the parents' ids alone, whichever parent and employee held them: the
  \<open>i\<close>-th id of the set goes to the employee at the position drawn for it in the list of
  the employees whose specialties contain its category.  The positions drawn are one of
  the equally likely outcomes \<open>resultados\<close>, and exactly one in \<open>L\<close> of these outcomes
  gives the \<open>i\<close>-th id to the \<open>j\<close>-th of its \<open>L\<close> compatible employees: the
  employee is drawn uniformly, and the draws of different ids do not constrain each other.
  The child's assigned ids are the union of the parents', each id is assigned once, and
  each to an employee whose specialties contain the category of its process.
\<close>

theorem crossover_recombina:
  assumes "reais g (lidos_reais g) \<le> taxa_crossover self"
    and "\<forall>p \<in> set (ids_atribuidos (conteudo m pai1)) \<union> set (ids_atribuidos (conteudo m pai2)).
           posicao_e_id self p \<and> compativeis_spec self p \<noteq> []"
  shows "\<exists>filho m' g'.
           crossover self m pai1 pai2 g = Inr (filho, m', g')
           \<and> conteudo m' filho =
               construir self (posicoes_sorteadas self g (todos_processos m pai1 pai2 g))
                 (todos_processos m pai1 pai2 g) []
           \<and> posicoes_sorteadas self g (todos_processos m pai1 pai2 g)
               \<in> set (resultados self (todos_processos m pai1 pai2 g))
           \<and> distinct (resultados self (todos_processos m pai1 pai2 g))
           \<and> (\<forall>i j. i < length (todos_processos m pai1 pai2 g)
                    \<and> j < length (compativeis_spec self (todos_processos m pai1 pai2 g ! i)) \<longrightarrow>
                  length (filter (\<lambda>ks. ks ! i = j) (resultados self (todos_processos m pai1 pai2 g)))
                    * length (compativeis_spec self (todos_processos m pai1 pai2 g ! i))
                  = length (resultados self (todos_processos m pai1 pai2 g)))
           \<and> set (ids_atribuidos (conteudo m' filho))
               = set (ids_atribuidos (conteudo m pai1)) \<union> set (ids_atribuidos (conteudo m pai2))
           \<and> distinct (ids_atribuidos (conteudo m' filho))
           \<and> bem_atribuida self (conteudo m' filho)"
proof -
  let ?ids = "todos_processos m pai1 pai2 g"
  let ?g1 = "g\<lparr>lidos_reais := Suc (lidos_reais g)\<rparr>"
  let ?ks = "posicoes_sorteadas self g ?ids"
  let ?v = "construir self ?ks ?ids []"
  have pre: "\<forall>p \<in> set ?ids. posicao_e_id self p \<and> compativeis_spec self p \<noteq> []"
    using assms(2) by (simp add: set_todos_processos)
  have r: "redistribuir self ?ids [] ?g1 = Inr (?v, ?g1\<lparr>lidos_inteiros := lidos_inteiros ?g1 + length ?ids\<rparr>)"
    using redistribuir_construir [OF pre, of "[]" ?g1] by (simp add: posicoes_sorteadas_def)
  obtain filho m' where a: "alocar ?v m = (filho, m')" by (cases "alocar ?v m")
  have c: "crossover self m pai1 pai2 g =
             Inr (filho, m', ?g1\<lparr>lidos_inteiros := lidos_inteiros ?g1 + length ?ids\<rparr>)"
    using assms(1) r a by (simp add: crossover_recombinado)
  have v: "conteudo m' filho = ?v" using a by (rule alocar_conteudo)
  have mem: "?ks \<in> set (resultados self ?ids)"
    unfolding posicoes_sorteadas_def using pre by (intro posicoes_em_resultados) simp
  have dr: "distinct (resultados self ?ids)"
    unfolding resultados_def by (rule distinct_product_lists) auto
  have un: "\<forall>i j. i < length ?ids \<and> j < length (compativeis_spec self (?ids ! i)) \<longrightarrow>
              length (filter (\<lambda>ks. ks ! i = j) (resultados self ?ids))
                * length (compativeis_spec self (?ids ! i))
              = length (resultados self ?ids)"
    using resultados_uniforme by blast
  have len: "length ?ks = length ?ids"
    by (simp add: posicoes_sorteadas_def length_posicoes)
  have ms: "mset (ids_atribuidos ?v) = mset ?ids"
    using mset_ids_construir [OF len, of self "[]"] by (simp add: ids_Nil)
  have s: "set (ids_atribuidos ?v)
             = set (ids_atribuidos (conteudo m pai1)) \<union> set (ids_atribuidos (conteudo m pai2))"
    using mset_eq_setD [OF ms] by (simp add: set_todos_processos)
  have d: "distinct (ids_atribuidos ?v)"
    using ms distinct_todos_processos mset_eq_imp_distinct_iff by blast
  have b: "bem_atribuida self ?v"
    using resultados_list_all2 [OF mem]
    by (rule bem_atribuida_construir) (simp add: bem_atribuida_def)
  have s': "set (ids_atribuidos (conteudo m' filho))
              = set (ids_atribuidos (conteudo m pai1)) \<union> set (ids_atribuidos (conteudo m pai2))"
    unfolding v by (rule s)
  have d': "distinct (ids_atribuidos (conteudo m' filho))" unfolding v by (rule d)
  have b': "bem_atribuida self (conteudo m' filho)" unfolding v by (rule b)
  show ?thesis
    by (intro exI conjI) (fact c v mem dr un s' d' b')+
qed

theorem crossover_recombina_witness:
  "reais acaso_recombina (lidos_reais acaso_recombina)
     \<le> taxa_crossover dois_funcionarios
   \<and> ids_atribuidos (conteudo armazem_ab sol_a) = [0, 1]
   \<and> ids_atribuidos (conteudo armazem_ab sol_b) = [0, 1]
   \<and> posicao_e_id dois_funcionarios 0 \<and> posicao_e_id dois_funcionarios 1
   \<and> map func_id (compativeis_spec dois_funcionarios 0) = [1, 2]
   \<and> map func_id (compativeis_spec dois_funcionarios 1) = [1, 2]
   \<and> todos_processos armazem_ab sol_a sol_b acaso_recombina = [0, 1]
   \<and> posicoes_sorteadas dois_funcionarios acaso_recombina [0, 1] = [0, 1]
   \<and> resultados dois_funcionarios [0, 1] = [[0, 0], [0, 1], [1, 0], [1, 1]]
   \<and> length (filter (\<lambda>ks. ks ! 1 = 0) (resultados dois_funcionarios [0, 1])) * 2 = 4
   \<and> \<not> isl (crossover dois_funcionarios armazem_ab sol_a sol_b acaso_recombina)
   \<and> conteudo
        (fst (snd (projr (crossover dois_funcionarios armazem_ab sol_a sol_b acaso_recombina))))
        (fst (projr (crossover dois_funcionarios armazem_ab sol_a sol_b acaso_recombina)))
       = [(1, [0]), (2, [1])]
   \<and> bem_atribuida dois_funcionarios [(1, [0]), (2, [1])]"
proof -
  let ?g = acaso_recombina
  have u: "reais ?g (lidos_reais ?g) \<le> taxa_crossover dois_funcionarios" by code_simp
  have a: "ids_atribuidos (conteudo armazem_ab sol_a) = [0, 1]" by code_simp
  have b: "ids_atribuidos (conteudo armazem_ab sol_b) = [0, 1]" by code_simp
  have p: "posicao_e_id dois_funcionarios 0" "posicao_e_id dois_funcionarios 1" by code_simp+
  have c: "map func_id (compativeis_spec dois_funcionarios 0) = [1, 2]"
    "map func_id (compativeis_spec dois_funcionarios 1) = [1, 2]"
    by code_simp+
  then have ne: "compativeis_spec dois_funcionarios 0 \<noteq> []" "compativeis_spec dois_funcionarios 1 \<noteq> []"
    by auto
  have len: "length (compativeis_spec dois_funcionarios 1) = 2"
    using arg_cong [OF c(2), of length] by simp
  have pre: "\<forall>p \<in> set (ids_atribuidos (conteudo armazem_ab sol_a))
                  \<union> set (ids_atribuidos (conteudo armazem_ab sol_b)).
               posicao_e_id dois_funcionarios p \<and> compativeis_spec dois_funcionarios p \<noteq> []"
    unfolding a b using p ne by simp
  have t: "todos_processos armazem_ab sol_a sol_b ?g = [0, 1]" by code_simp
  have ks: "posicoes_sorteadas dois_funcionarios ?g [0, 1] = [0, 1]" by code_simp
  have rs: "resultados dois_funcionarios [0, 1] = [[0, 0], [0, 1], [1, 0], [1, 1]]" by code_simp
  have s: "construir dois_funcionarios [0, 1] [0, 1] [] = [(1, [0]), (2, [1])]" by code_simp
  from crossover_recombina [OF u pre] obtain filho m' g' where
    todos: "crossover dois_funcionarios armazem_ab sol_a sol_b ?g = Inr (filho, m', g')
           \<and> conteudo m' filho =
               construir dois_funcionarios
                 (posicoes_sorteadas dois_funcionarios ?g (todos_processos armazem_ab sol_a sol_b ?g))
                 (todos_processos armazem_ab sol_a sol_b ?g) []
           \<and> posicoes_sorteadas dois_funcionarios ?g (todos_processos armazem_ab sol_a sol_b ?g)
               \<in> set (resultados dois_funcionarios (todos_processos armazem_ab sol_a sol_b ?g))
           \<and> distinct (resultados dois_funcionarios (todos_processos armazem_ab sol_a sol_b ?g))
           \<and> (\<forall>i j. i < length (todos_processos armazem_ab sol_a sol_b ?g)
                    \<and> j < length (compativeis_spec dois_funcionarios (todos_processos armazem_ab sol_a sol_b ?g ! i)) \<longrightarrow>
                  length (filter (\<lambda>ks. ks ! i = j) (resultados dois_funcionarios (todos_processos armazem_ab sol_a sol_b ?g)))
                    * length (compativeis_spec dois_funcionarios (todos_processos armazem_ab sol_a sol_b ?g ! i))
                  = length (resultados dois_funcionarios (todos_processos armazem_ab sol_a sol_b ?g)))
           \<and> set (ids_atribuidos (conteudo m' filho))
               = set (ids_atribuidos (conteudo armazem_ab sol_a)) \<union> set (ids_atribuidos (conteudo armazem_ab sol_b))
           \<and> distinct (ids_atribuidos (conteudo m' filho))
           \<and> bem_atribuida dois_funcionarios (conteudo m' filho)"
    by (elim exE)
  note r = todos [THEN conjunct1]
  note v = todos [THEN conjunct2, THEN conjunct1]
  note un = todos [THEN conjunct2, THEN conjunct2, THEN conjunct2, THEN conjunct2, THEN conjunct1]
  note be = todos [THEN conjunct2, THEN conjunct2, THEN conjunct2, THEN conjunct2, THEN conjunct2,
      THEN conjunct2, THEN conjunct2]
  have v': "conteudo m' filho = [(1, [0]), (2, [1])]"
    unfolding v t ks s ..
  have "length (filter (\<lambda>ks. ks ! 1 = 0) (resultados dois_funcionarios [0, 1]))
          * length (compativeis_spec dois_funcionarios 1)
        = length (resultados dois_funcionarios [0, 1])"
    using un [THEN spec, THEN spec, of 1 0] unfolding t by (simp add: len)
  then have cnt: "length (filter (\<lambda>ks. ks ! 1 = 0) (resultados dois_funcionarios [0, 1])) * 2 = 4"
    by (simp add: len rs)
  have be': "bem_atribuida dois_funcionarios [(1, [0]), (2, [1])]"
    using be unfolding v' .
  have i: "\<not> isl (crossover dois_funcionarios armazem_ab sol_a sol_b ?g)"
    unfolding r by simp
  have j: "conteudo
        (fst (snd (projr (crossover dois_funcionarios armazem_ab sol_a sol_b ?g))))
        (fst (projr (crossover dois_funcionarios armazem_ab sol_a sol_b ?g)))
       = [(1, [0]), (2, [1])]"
    unfolding r using v' by simp
  show ?thesis
    by (intro conjI) (fact u a b p c t ks rs cnt i j be')+
qed

text \<open>
  Claim C7, as amended.  No process id is assigned twice (to two employees, or twice to
  one) in a solution produced by the initializer when the processes of the domain carry
  pairwise distinct ids; in a child returned by crossover when it recombines, or when it
  copies a first parent that satisfies the invariant; and in a solution after mutation,
  when it satisfied the invariant before and its sequences are separate lists, whether
  or not the mutation raises.
\<close>

theorem atribuicao_exclusiva:
  "(distinct (map proc_id (processos self)) \<longrightarrow>
      distinct (ids_atribuidos (fst (gerar_solucao_aleatoria self g))))
   \<and> (crossover self m pai1 pai2 g = Inr (filho, m', g')
        \<and> (reais g (lidos_reais g) \<le> taxa_crossover self
            \<or> distinct (ids_atribuidos (conteudo m pai1))) \<longrightarrow>
      distinct (ids_atribuidos (conteudo m' filho)))
   \<and> (distinct (map snd sol) \<and> distinct (ids_atribuidos (conteudo m sol)) \<longrightarrow>
      distinct (ids_atribuidos (apos_mutacao self m sol g)))"
proof (intro conjI impI)
  assume "distinct (map proc_id (processos self))"
  then show "distinct (ids_atribuidos (fst (gerar_solucao_aleatoria self g)))"
    by (rule gerar_exclusiva)
next
  assume h: "crossover self m pai1 pai2 g = Inr (filho, m', g')
        \<and> (reais g (lidos_reais g) \<le> taxa_crossover self
            \<or> distinct (ids_atribuidos (conteudo m pai1)))"
  show "distinct (ids_atribuidos (conteudo m' filho))"
  proof (cases "reais g (lidos_reais g) \<le> taxa_crossover self")
    case True
    with h show ?thesis using crossover_exclusiva_recombinado by blast
  next
    case False
    with h show ?thesis using crossover_exclusiva_copia [of self m pai1 pai2 g filho m' g'] by simp
  qed
next
  assume "distinct (map snd sol) \<and> distinct (ids_atribuidos (conteudo m sol))"
  then show "distinct (ids_atribuidos (apos_mutacao self m sol g))"
    using mutacao_exclusiva by blast
qed

theorem atribuicao_exclusiva_witness:
  "distinct (map proc_id (processos dois_funcionarios))
   \<and> distinct (ids_atribuidos (fst (gerar_solucao_aleatoria dois_funcionarios acaso_troca)))
   \<and> reais (acaso_troca\<lparr>lidos_reais := 1\<rparr>) (lidos_reais (acaso_troca\<lparr>lidos_reais := 1\<rparr>))
       \<le> taxa_crossover dois_funcionarios
   \<and> (case crossover dois_funcionarios armazem_ab sol_a sol_b (acaso_troca\<lparr>lidos_reais := 1\<rparr>) of
        Inl e \<Rightarrow> False
      | Inr (filho, m', g') \<Rightarrow> distinct (ids_atribuidos (conteudo m' filho)))
   \<and> distinct (map snd sol_a) \<and> distinct (ids_atribuidos (conteudo armazem_ab sol_a))
   \<and> distinct (ids_atribuidos
        (apos_mutacao (dois_funcionarios\<lparr>taxa_mutacao := 1\<rparr>) armazem_ab sol_a
           (acaso_troca\<lparr>lidos_inteiros := 6\<rparr>)))"
proof -
  let ?g = "acaso_troca\<lparr>lidos_reais := 1\<rparr>"
  have d: "distinct (map proc_id (processos dois_funcionarios))" by code_simp
  have u: "reais ?g (lidos_reais ?g) \<le> taxa_crossover dois_funcionarios" by code_simp
  have ok: "(case crossover dois_funcionarios armazem_ab sol_a sol_b ?g of
               Inl e \<Rightarrow> False | Inr r \<Rightarrow> True)"
    by code_simp
  then obtain filho m' g' where
    r: "crossover dois_funcionarios armazem_ab sol_a sol_b ?g = Inr (filho, m', g')"
    by (cases "crossover dois_funcionarios armazem_ab sol_a sol_b ?g") auto
  have e: "distinct (map snd sol_a)" by (simp add: sol_a_def)
  have i: "distinct (ids_atribuidos (conteudo armazem_ab sol_a))" by code_simp
  note T = atribuicao_exclusiva [where self = dois_funcionarios and g = acaso_troca]
  note T2 = atribuicao_exclusiva [where self = dois_funcionarios and g = ?g and m = armazem_ab
      and ?pai1.0 = sol_a and ?pai2.0 = sol_b and filho = filho and m' = m' and g' = g']
  note T3 = atribuicao_exclusiva [where self = "dois_funcionarios\<lparr>taxa_mutacao := 1\<rparr>"
      and g = "acaso_troca\<lparr>lidos_inteiros := 6\<rparr>" and m = armazem_ab and sol = sol_a]
  have c1: "distinct (ids_atribuidos (fst (gerar_solucao_aleatoria dois_funcionarios acaso_troca)))"
    using T d by blast
  have c2: "distinct (ids_atribuidos (conteudo m' filho))"
    using T2 r u by blast
  have c3: "distinct (ids_atribuidos
              (apos_mutacao (dois_funcionarios\<lparr>taxa_mutacao := 1\<rparr>) armazem_ab sol_a
                 (acaso_troca\<lparr>lidos_inteiros := 6\<rparr>)))"
    using T3 e i by blast
  show ?thesis using d u e i c1 c2 c3 r by simp
qed

text \<open>
  Claim C7 as stated fails for the initializer: with two processes that both carry id 0,
  it can assign id 0 to employee 1 and to employee 2.
\<close>

theorem atribuicao_exclusiva_counterexample:
  "fst (gerar_solucao_aleatoria ids_repetidos acaso_zero) = [(1, [0]), (2, [0])]
   \<and> \<not> distinct (ids_atribuidos (fst (gerar_solucao_aleatoria ids_repetidos acaso_zero)))"
  by code_simp

end
